theory Spec2Isabelle
  imports Complex_Main "HOL-Library.Log_Nat"
begin

section \<open>Python values\<close>

text \<open>
  A Python \<open>str\<close> is a sequence of Unicode code points and \<open>len\<close> counts code points, so
  a string is a list of code points here. ASCII literals of the source are written
  \<open>str ''...''\<close>, which abbreviates the list of the codes of the characters. The source file
  holds three header labels made of U+FFFD (code point 65533) only; they are kept as they
  stand in the file.
\<close>

type_synonym pystr = "nat list"

abbreviation str :: "string \<Rightarrow> pystr" where
  "str s \<equiv> map of_char s"

text \<open>
  What \<open>json.load\<close> hands to the program: scalars, lists and dicts with string keys (a
  dict is an association list, looked up from the front). Numbers with a fraction are not
  represented.
\<close>

datatype scalar = SNone | SBool bool | SInt int | SStr pystr

datatype pyval = Scalar scalar | PList "pyval list" | PDict "(pystr \<times> pyval) list"

datatype error =
    KeyError pystr
  | TypeError
  | ValueError
  | IllegalCharacterError
  | FileNotFoundError
  | JSONDecodeError
  | OSError

text \<open>Sequencing of two computations that may raise: the first exception wins.\<close>

definition bindE :: "error + 'a \<Rightarrow> ('a \<Rightarrow> error + 'b) \<Rightarrow> error + 'b" where
  "bindE m f = (case m of Inl e \<Rightarrow> Inl e | Inr x \<Rightarrow> f x)"

text \<open>\<open>data[key]\<close> with a string key: only a dict can be subscripted by a string.\<close>

definition getitem :: "pyval \<Rightarrow> pystr \<Rightarrow> error + pyval" where
  "getitem data k =
     (case data of
        PDict kvs \<Rightarrow> (case map_of kvs k of None \<Rightarrow> Inl (KeyError k) | Some v \<Rightarrow> Inr v)
      | _ \<Rightarrow> Inl TypeError)"

text \<open>
  \<open>for item in x\<close>: a list yields its elements, a string its characters, a dict its
  keys; nothing else is iterable.
\<close>

definition iterate :: "pyval \<Rightarrow> error + pyval list" where
  "iterate x =
     (case x of
        PList xs \<Rightarrow> Inr xs
      | PDict kvs \<Rightarrow> Inr (map (\<lambda>kv. Scalar (SStr (fst kv))) kvs)
      | Scalar (SStr s) \<Rightarrow> Inr (map (\<lambda>c. Scalar (SStr [c])) s)
      | _ \<Rightarrow> Inl TypeError)"

text \<open>A list comprehension \<open>[f(item) for item in xs]\<close>: stops at the first exception.\<close>

fun mapE :: "('a \<Rightarrow> error + 'b) \<Rightarrow> 'a list \<Rightarrow> error + 'b list" where
  "mapE f [] = Inr []"
| "mapE f (x # xs) = bindE (f x) (\<lambda>y. bindE (mapE f xs) (\<lambda>ys. Inr (y # ys)))"

text \<open>\<open>sep.join(x)\<close>: every element of the iterable must be a string.\<close>

fun join_str :: "pystr \<Rightarrow> pystr list \<Rightarrow> pystr" where
  "join_str sep [] = []"
| "join_str sep [s] = s"
| "join_str sep (s # t # ss) = s @ sep @ join_str sep (t # ss)"

definition as_str :: "pyval \<Rightarrow> error + pystr" where
  "as_str v = (case v of Scalar (SStr s) \<Rightarrow> Inr s | _ \<Rightarrow> Inl TypeError)"

definition join :: "pystr \<Rightarrow> pyval \<Rightarrow> error + pystr" where
  "join sep x = bindE (iterate x) (\<lambda>items. bindE (mapE as_str items) (\<lambda>ss. Inr (join_str sep ss)))"

text \<open>Truth value of a scalar, as \<open>if v\<close> and \<open>v and ...\<close> test it.\<close>

fun truthy :: "scalar \<Rightarrow> bool" where
  "truthy SNone = False"
| "truthy (SBool b) = b"
| "truthy (SInt i) = (i \<noteq> 0)"
| "truthy (SStr s) = (s \<noteq> [])"

fun truthy_val :: "pyval \<Rightarrow> bool" where
  "truthy_val (Scalar s) = truthy s"
| "truthy_val (PList xs) = (xs \<noteq> [])"
| "truthy_val (PDict kvs) = (kvs \<noteq> [])"

text \<open>\<open>str(v)\<close> of a scalar; an integer prints in decimal.\<close>

fun digits :: "nat \<Rightarrow> pystr" where
  "digits n = (if n < 10 then [48 + n] else digits (n div 10) @ [48 + n mod 10])"

definition str_int :: "int \<Rightarrow> pystr" where
  "str_int i = (if i < 0 then 45 # digits (nat (- i)) else digits (nat i))"

fun py_str :: "scalar \<Rightarrow> pystr" where
  "py_str SNone = str ''None''"
| "py_str (SBool b) = (if b then str ''True'' else str ''False'')"
| "py_str (SInt i) = str_int i"
| "py_str (SStr s) = s"

text \<open>\<open>s.split("\n")\<close>; the newline is code point 10.\<close>

fun split_nl :: "pystr \<Rightarrow> pystr list" where
  "split_nl [] = [[]]"
| "split_nl (c # cs) =
     (if c = 10 then [] # split_nl cs
      else (case split_nl cs of [] \<Rightarrow> [[c]] | l # ls \<Rightarrow> (c # l) # ls))"

section \<open>The record classes and their \<open>from_dict\<close>\<close>

text \<open>
  The constructors store what they are given, and \<open>from_dict\<close> checks nothing but the
  presence of the keys, so every field holds an arbitrary value.
\<close>

record OS =
  name :: pyval
  version :: pyval

record Software =
  name :: pyval
  version :: pyval
  vendor :: pyval

record Vulnerability =
  kaspersky_id :: pyval
  product_name :: pyval
  description_url :: pyval
  recommended_major_patch :: pyval
  recommended_minor_patch :: pyval
  severity_str :: pyval
  severity :: pyval
  cve :: pyval
  exploit_exists :: pyval
  malware_exists :: pyval

record Device =
  name :: pyval
  fqdn :: pyval
  ip_addresses :: pyval
  mac_addresses :: pyval
  owner :: pyval
  os :: OS
  software :: "Software list"
  vulnerabilities :: "Vulnerability list"

definition OS_from_dict :: "pyval \<Rightarrow> error + OS" where
  "OS_from_dict data =
     bindE (getitem data (str ''name'')) (\<lambda>n.
     bindE (getitem data (str ''version'')) (\<lambda>v.
     Inr \<lparr>OS.name = n, OS.version = v\<rparr>))"

definition Software_from_dict :: "pyval \<Rightarrow> error + Software" where
  "Software_from_dict data =
     bindE (getitem data (str ''name'')) (\<lambda>n.
     bindE (getitem data (str ''version'')) (\<lambda>v.
     bindE (getitem data (str ''vendor'')) (\<lambda>vd.
     Inr \<lparr>Software.name = n, Software.version = v, Software.vendor = vd\<rparr>)))"

definition Vulnerability_from_dict :: "pyval \<Rightarrow> error + Vulnerability" where
  "Vulnerability_from_dict data =
     bindE (getitem data (str ''kasperskyID'')) (\<lambda>kid.
     bindE (getitem data (str ''productName'')) (\<lambda>pn.
     bindE (getitem data (str ''descriptionURL'')) (\<lambda>url.
     bindE (getitem data (str ''recommendedMajorPatch'')) (\<lambda>major.
     bindE (getitem data (str ''recommendedMinorPatch'')) (\<lambda>minor.
     bindE (getitem data (str ''severityStr'')) (\<lambda>sstr.
     bindE (getitem data (str ''severity'')) (\<lambda>sev.
     bindE (getitem data (str ''cve'')) (\<lambda>cv.
     bindE (getitem data (str ''exploitExists'')) (\<lambda>ex.
     bindE (getitem data (str ''malwareExists'')) (\<lambda>mw.
     Inr \<lparr>kaspersky_id = kid, product_name = pn, description_url = url,
          recommended_major_patch = major, recommended_minor_patch = minor,
          severity_str = sstr, severity = sev, cve = cv,
          exploit_exists = ex, malware_exists = mw\<rparr>))))))))))"

definition Device_from_dict :: "pyval \<Rightarrow> error + Device" where
  "Device_from_dict data =
     bindE (getitem data (str ''name'')) (\<lambda>n.
     bindE (getitem data (str ''fqdn'')) (\<lambda>fq.
     bindE (getitem data (str ''ipAddresses'')) (\<lambda>ips.
     bindE (getitem data (str ''macAddresses'')) (\<lambda>macs.
     bindE (getitem data (str ''owner'')) (\<lambda>ow.
     bindE (getitem data (str ''os'')) (\<lambda>od.
     bindE (OS_from_dict od) (\<lambda>opsys.
     bindE (getitem data (str ''software'')) (\<lambda>sd.
     bindE (iterate sd) (\<lambda>sitems.
     bindE (mapE Software_from_dict sitems) (\<lambda>sw.
     bindE (getitem data (str ''vulnerabilities'')) (\<lambda>vd.
     bindE (iterate vd) (\<lambda>vitems.
     bindE (mapE Vulnerability_from_dict vitems) (\<lambda>vs.
     Inr \<lparr>Device.name = n, fqdn = fq, ip_addresses = ips, mac_addresses = macs,
          owner = ow, os = opsys, software = sw, vulnerabilities = vs\<rparr>)))))))))))))"

section \<open>The worksheet\<close>

text \<open>
  The spreadsheet library is not part of the repository; what the program relies on is
  modelled here. A worksheet is the store the program writes into: a cell per (row, column)
  holding a value, the font weight, the alignment and the four border sides, the greatest
  row and column touched so far (what \<open>ws.columns\<close> and \<open>ws.iter_rows()\<close> range over, from 1),
  the merged ranges, and the column widths and row heights that were set. Columns are
  identified by number rather than by letter.
\<close>

datatype alignment = default_alignment | center_alignment | wrap_alignment

datatype side = no_side | thin

record border =
  left_side :: side
  right_side :: side
  top_side :: side
  bottom_side :: side

definition no_border :: border where
  "no_border = \<lparr>left_side = no_side, right_side = no_side, top_side = no_side, bottom_side = no_side\<rparr>"

definition thin_border :: border where
  "thin_border = \<lparr>left_side = thin, right_side = thin, top_side = thin, bottom_side = thin\<rparr>"

record cell =
  "value" :: scalar
  font_bold :: bool
  alignment :: alignment
  border :: border

definition blank_cell :: cell where
  "blank_cell = \<lparr>value = SNone, font_bold = False, alignment = default_alignment, border = no_border\<rparr>"

record worksheet =
  cells :: "nat \<Rightarrow> nat \<Rightarrow> cell"
  max_row :: nat
  max_column :: nat
  merged_cells :: "(nat \<times> nat \<times> nat \<times> nat) list"
  column_width :: "nat \<Rightarrow> real option"
  row_height :: "nat \<Rightarrow> nat option"

definition create_sheet :: worksheet where
  "create_sheet = \<lparr>cells = (\<lambda>r c. blank_cell), max_row = 0, max_column = 0,
     merged_cells = [], column_width = (\<lambda>c. None), row_height = (\<lambda>r. None)\<rparr>"

text \<open>\<open>ws.cell(row, column)\<close> brings the cell into being, then the caller changes it.\<close>

definition modify :: "worksheet \<Rightarrow> nat \<Rightarrow> nat \<Rightarrow> (cell \<Rightarrow> cell) \<Rightarrow> worksheet" where
  "modify ws r c f =
     ws\<lparr>cells := (cells ws)(r := (cells ws r)(c := f (cells ws r c))),
        max_row := max (max_row ws) r,
        max_column := max (max_column ws) c\<rparr>"

text \<open>
  Assigning a value to a cell. A string is first cut to its first 32767 characters and then
  refused with \<open>IllegalCharacterError\<close> if it holds one of the control characters 0-8, 11, 12
  or 14-31; numbers and booleans are stored as they are; a list or a dict raises
  \<open>ValueError\<close>.
\<close>

definition illegal_character :: "nat \<Rightarrow> bool" where
  "illegal_character c = (c \<le> 8 \<or> c = 11 \<or> c = 12 \<or> (14 \<le> c \<and> c \<le> 31))"

definition check_string :: "pystr \<Rightarrow> error + pystr" where
  "check_string s =
     (let s' = take 32767 s
      in if list_ex illegal_character s' then Inl IllegalCharacterError else Inr s')"

definition bind_value :: "pyval \<Rightarrow> error + scalar" where
  "bind_value v =
     (case v of
        Scalar (SStr s) \<Rightarrow> bindE (check_string s) (\<lambda>s'. Inr (SStr s'))
      | Scalar x \<Rightarrow> Inr x
      | _ \<Rightarrow> Inl ValueError)"

text \<open>
  \<open>ws.cell(row, column, value)\<close> followed by a change of style: passing \<open>None\<close> as the value
  makes no assignment.
\<close>

definition put :: "worksheet \<Rightarrow> nat \<Rightarrow> nat \<Rightarrow> pyval \<Rightarrow> (cell \<Rightarrow> cell) \<Rightarrow> error + worksheet" where
  "put ws r c v style =
     (case v of
        Scalar SNone \<Rightarrow> Inr (modify ws r c style)
      | _ \<Rightarrow> bindE (bind_value v) (\<lambda>x. Inr (modify ws r c (\<lambda>y. style (y\<lparr>value := x\<rparr>)))))"

definition set_alignment :: "alignment \<Rightarrow> cell \<Rightarrow> cell" where
  "set_alignment a x = x\<lparr>alignment := a\<rparr>"

definition set_border :: "border \<Rightarrow> cell \<Rightarrow> cell" where
  "set_border b x = x\<lparr>border := b\<rparr>"

definition header_style :: "cell \<Rightarrow> cell" where
  "header_style x = x\<lparr>font_bold := True, alignment := center_alignment, border := thin_border\<rparr>"

text \<open>\<open>for col in range(1, n): ws.cell(row=row_num, column=col).border = thin_border\<close>\<close>

definition apply_borders :: "worksheet \<Rightarrow> nat \<Rightarrow> nat \<Rightarrow> worksheet" where
  "apply_borders ws row_num n = fold (\<lambda>col w. modify w row_num col (set_border thin_border)) [1..<n] ws"

text \<open>
  \<open>ws.merge_cells(start_row, start_column, end_row, end_column)\<close> records the range and
  replaces every cell of the range but the first by a merged cell: it has no value and the
  default style, and on the sides where it lies on the edge of the range it takes over the
  border side of the first cell.
\<close>

definition merged_cell :: "border \<Rightarrow> bool \<Rightarrow> bool \<Rightarrow> bool \<Rightarrow> bool \<Rightarrow> cell" where
  "merged_cell b on_left on_right on_top on_bottom =
     blank_cell\<lparr>border :=
       \<lparr>left_side = (if on_left then left_side b else no_side),
        right_side = (if on_right then right_side b else no_side),
        top_side = (if on_top then top_side b else no_side),
        bottom_side = (if on_bottom then bottom_side b else no_side)\<rparr>\<rparr>"

definition merge_cells :: "worksheet \<Rightarrow> nat \<Rightarrow> nat \<Rightarrow> nat \<Rightarrow> nat \<Rightarrow> worksheet" where
  "merge_cells ws start_row start_column end_row end_column =
     ws\<lparr>cells := (\<lambda>r c.
            if start_row \<le> r \<and> r \<le> end_row \<and> start_column \<le> c \<and> c \<le> end_column
               \<and> \<not> (r = start_row \<and> c = start_column)
            then merged_cell (border (cells ws start_row start_column))
                   (c = start_column) (c = end_column) (r = start_row) (r = end_row)
            else cells ws r c),
        max_row := max (max_row ws) end_row,
        max_column := max (max_column ws) end_column,
        merged_cells := merged_cells ws @ [(start_row, start_column, end_row, end_column)]\<rparr>"

section \<open>\<open>save_to_excel\<close>\<close>

definition devices_headers :: "pystr list" where
  "devices_headers = [str ''Name'', str ''FQDN'', str ''IP Addresses'', str ''MAC Addresses'',
     str ''Owner'', str ''OS Name'', str ''OS Version'']"

definition software_headers :: "pystr list" where
  "software_headers = [[65533, 65533], str ''Software Name'',
     [65533, 65533, 65533, 65533, 65533, 65533], [65533, 65533, 65533, 65533, 65533, 65533]]"

definition vuln_headers :: "pystr list" where
  "vuln_headers = [[65533, 65533], str ''Kaspersky ID'', str ''Product Name'', str ''Severity'',
     str ''Severity Level'', str ''CVE IDs'', str ''Exploit Exists'', str ''Malware Exists'',
     str ''Recommended Major Patch'', str ''Recommended Minor Patch'', str ''Description URL'']"

text \<open>\<open>for col_num, header in enumerate(headers, 1)\<close>\<close>

fun write_headers :: "worksheet \<Rightarrow> nat \<Rightarrow> pystr list \<Rightarrow> error + worksheet" where
  "write_headers ws col_num [] = Inr ws"
| "write_headers ws col_num (header # hs) =
     bindE (put ws 1 col_num (Scalar (SStr header)) header_style) (\<lambda>ws.
     write_headers ws (Suc col_num) hs)"

definition wrap :: "cell \<Rightarrow> cell" where
  "wrap = set_alignment wrap_alignment"

definition sep :: pystr where
  "sep = str '', ''"

definition device_row :: "worksheet \<Rightarrow> nat \<Rightarrow> Device \<Rightarrow> error + worksheet" where
  "device_row ws row_num device =
     bindE (put ws row_num 1 (Device.name device) wrap) (\<lambda>ws.
     bindE (join sep (fqdn device)) (\<lambda>s.
     bindE (put ws row_num 2 (Scalar (SStr s)) wrap) (\<lambda>ws.
     bindE (join sep (ip_addresses device)) (\<lambda>s.
     bindE (put ws row_num 3 (Scalar (SStr s)) wrap) (\<lambda>ws.
     bindE (join sep (mac_addresses device)) (\<lambda>s.
     bindE (put ws row_num 4 (Scalar (SStr s)) wrap) (\<lambda>ws.
     bindE (put ws row_num 5 (owner device) wrap) (\<lambda>ws.
     bindE (put ws row_num 6 (OS.name (os device)) wrap) (\<lambda>ws.
     bindE (put ws row_num 7 (OS.version (os device)) wrap) (\<lambda>ws.
     Inr (apply_borders ws row_num 8)))))))))))"

text \<open>\<open>for row_num, device in enumerate(devices, 2)\<close>\<close>

fun write_devices :: "worksheet \<Rightarrow> nat \<Rightarrow> Device list \<Rightarrow> error + worksheet" where
  "write_devices ws row_num [] = Inr ws"
| "write_devices ws row_num (device # devices) =
     bindE (device_row ws row_num device) (\<lambda>ws. write_devices ws (Suc row_num) devices)"

definition software_row :: "worksheet \<Rightarrow> nat \<Rightarrow> nat \<Rightarrow> Device \<Rightarrow> Software \<Rightarrow> error + worksheet" where
  "software_row ws row_num start_row device sw =
     bindE (put ws row_num 1 (if row_num = start_row then Device.name device else Scalar (SStr [])) wrap) (\<lambda>ws.
     bindE (put ws row_num 2 (Software.name sw) wrap) (\<lambda>ws.
     bindE (put ws row_num 3 (Software.version sw) wrap) (\<lambda>ws.
     bindE (put ws row_num 4 (Software.vendor sw) wrap) (\<lambda>ws.
     Inr (apply_borders ws row_num 5)))))"

text \<open>The inner loop \<open>for software in device.software\<close>, returning the sheet and \<open>row_num\<close>.\<close>

fun software_rows :: "worksheet \<Rightarrow> nat \<Rightarrow> nat \<Rightarrow> Device \<Rightarrow> Software list \<Rightarrow> error + worksheet \<times> nat" where
  "software_rows ws row_num start_row device [] = Inr (ws, row_num)"
| "software_rows ws row_num start_row device (sw # sws) =
     bindE (software_row ws row_num start_row device sw) (\<lambda>ws.
     software_rows ws (row_num + 1) start_row device sws)"

fun write_software :: "worksheet \<Rightarrow> nat \<Rightarrow> Device list \<Rightarrow> error + worksheet" where
  "write_software ws row_num [] = Inr ws"
| "write_software ws row_num (device # devices) =
     (let start_row = row_num in
      if software device = [] then
        bindE (put ws row_num 1 (Device.name device) wrap) (\<lambda>ws.
        write_software (apply_borders ws row_num 5) (row_num + 1) devices)
      else
        bindE (software_rows ws row_num start_row device (software device)) (\<lambda>(ws, row_num).
        write_software
          (if row_num > start_row + 1 then merge_cells ws start_row 1 (row_num - 1) 1 else ws)
          row_num devices))"

definition yes_no :: "pyval \<Rightarrow> pyval" where
  "yes_no v = Scalar (SStr (if truthy_val v then str ''Yes'' else str ''No''))"

definition vuln_row :: "worksheet \<Rightarrow> nat \<Rightarrow> nat \<Rightarrow> Device \<Rightarrow> Vulnerability \<Rightarrow> error + worksheet" where
  "vuln_row ws row_num start_row device vuln =
     bindE (put ws row_num 1 (if row_num = start_row then Device.name device else Scalar (SStr [])) wrap) (\<lambda>ws.
     bindE (put ws row_num 2 (kaspersky_id vuln) wrap) (\<lambda>ws.
     bindE (put ws row_num 3 (product_name vuln) wrap) (\<lambda>ws.
     bindE (put ws row_num 4 (severity vuln) wrap) (\<lambda>ws.
     bindE (put ws row_num 5 (severity_str vuln) wrap) (\<lambda>ws.
     bindE (join sep (cve vuln)) (\<lambda>s.
     bindE (put ws row_num 6 (Scalar (SStr s)) wrap) (\<lambda>ws.
     bindE (put ws row_num 7 (yes_no (exploit_exists vuln)) wrap) (\<lambda>ws.
     bindE (put ws row_num 8 (yes_no (malware_exists vuln)) wrap) (\<lambda>ws.
     bindE (put ws row_num 9 (recommended_major_patch vuln) wrap) (\<lambda>ws.
     bindE (put ws row_num 10 (recommended_minor_patch vuln) wrap) (\<lambda>ws.
     bindE (put ws row_num 11 (description_url vuln) wrap) (\<lambda>ws.
     Inr (apply_borders ws row_num 12)))))))))))))"

fun vuln_rows :: "worksheet \<Rightarrow> nat \<Rightarrow> nat \<Rightarrow> Device \<Rightarrow> Vulnerability list \<Rightarrow> error + worksheet \<times> nat" where
  "vuln_rows ws row_num start_row device [] = Inr (ws, row_num)"
| "vuln_rows ws row_num start_row device (vuln # vulns) =
     bindE (vuln_row ws row_num start_row device vuln) (\<lambda>ws.
     vuln_rows ws (row_num + 1) start_row device vulns)"

fun write_vulnerabilities :: "worksheet \<Rightarrow> nat \<Rightarrow> Device list \<Rightarrow> error + worksheet" where
  "write_vulnerabilities ws row_num [] = Inr ws"
| "write_vulnerabilities ws row_num (device # devices) =
     (let start_row = row_num in
      if vulnerabilities device = [] then
        bindE (put ws row_num 1 (Device.name device) wrap) (\<lambda>ws.
        write_vulnerabilities (apply_borders ws row_num 12) (row_num + 1) devices)
      else
        bindE (vuln_rows ws row_num start_row device (vulnerabilities device)) (\<lambda>(ws, row_num).
        write_vulnerabilities
          (if row_num > start_row + 1 then merge_cells ws start_row 1 (row_num - 1) 1 else ws)
          row_num devices))"

subsection \<open>Column widths and row heights\<close>

definition MAX_COLUMN_WIDTH :: real where
  "MAX_COLUMN_WIDTH = 100"

text \<open>The cells of one column, rows 1 to \<open>max_row\<close>; the cells of one row likewise.\<close>

definition column_cells :: "worksheet \<Rightarrow> nat \<Rightarrow> cell list" where
  "column_cells ws c = map (\<lambda>r. cells ws r c) [1..<Suc (max_row ws)]"

definition row_cells :: "worksheet \<Rightarrow> nat \<Rightarrow> cell list" where
  "row_cells ws r = map (\<lambda>c. cells ws r c) [1..<Suc (max_column ws)]"

text \<open>
  \<open>for cell in col: if cell.value and len(str(cell.value)) > max_length: max_length = ...\<close>
  (nothing in the body raises on a scalar, so the \<open>except\<close> is never entered).
\<close>

fun max_length_loop :: "nat \<Rightarrow> cell list \<Rightarrow> nat" where
  "max_length_loop max_length [] = max_length"
| "max_length_loop max_length (cell # col) =
     max_length_loop
       (if truthy (value cell) \<and> length (py_str (value cell)) > max_length
        then length (py_str (value cell)) else max_length) col"

text \<open>
  \<open>(max_length + 2) * 1.2\<close> is a product of binary floating-point numbers (IEEE 754
  double precision): the integer is converted, the literal \<open>1.2\<close> denotes the double
  \<open>5404319552844595 / 2 ^ 52\<close>, and the exact product is rounded to 53 significant bits, ties
  to even. \<open>round53 m\<close> is the natural number with at most 53 significant bits nearest to
  \<open>m\<close>.
\<close>

fun bit_length :: "nat \<Rightarrow> nat" where
  "bit_length n = (if n = 0 then 0 else Suc (bit_length (n div 2)))"

definition round53 :: "nat \<Rightarrow> nat" where
  "round53 m =
     (if m < 2 ^ 53 then m
      else (let k = bit_length m - 53; q = m div 2 ^ k; r = m mod 2 ^ k
            in (if 2 ^ (k - 1) < r \<or> (r = 2 ^ (k - 1) \<and> odd q) then q + 1 else q) * 2 ^ k))"

definition times_1_2 :: "nat \<Rightarrow> real" where
  "times_1_2 n = real (round53 (round53 n * 5404319552844595)) / 2 ^ 52"

text \<open>\<open>min((max_length + 2) * 1.2, MAX_COLUMN_WIDTH)\<close>\<close>

definition adjusted_width :: "nat \<Rightarrow> real" where
  "adjusted_width max_length = min (times_1_2 (max_length + 2)) MAX_COLUMN_WIDTH"

definition adjust_column :: "nat \<Rightarrow> worksheet \<Rightarrow> worksheet" where
  "adjust_column c ws =
     ws\<lparr>column_width := (column_width ws)(c \<mapsto> adjusted_width (max_length_loop 0 (column_cells ws c)))\<rparr>"

definition adjust_columns :: "worksheet \<Rightarrow> worksheet" where
  "adjust_columns ws = fold adjust_column [1..<Suc (max_column ws)] ws"

fun max_lines_loop :: "nat \<Rightarrow> cell list \<Rightarrow> nat" where
  "max_lines_loop max_lines [] = max_lines"
| "max_lines_loop max_lines (cell # row) =
     max_lines_loop
       (if truthy (value cell) \<and> 10 \<in> set (py_str (value cell))
        then (let lines = length (split_nl (py_str (value cell)))
              in if lines > max_lines then lines else max_lines)
        else max_lines) row"

definition adjust_row :: "nat \<Rightarrow> worksheet \<Rightarrow> worksheet" where
  "adjust_row r ws =
     (let max_lines = max_lines_loop 1 (row_cells ws r)
      in if max_lines > 1 then ws\<lparr>row_height := (row_height ws)(r \<mapsto> 15 * max_lines)\<rparr> else ws)"

definition adjust_rows :: "worksheet \<Rightarrow> worksheet" where
  "adjust_rows ws = fold adjust_row [1..<Suc (max_row ws)] ws"

definition adjust_sheet :: "worksheet \<Rightarrow> worksheet" where
  "adjust_sheet ws = adjust_rows (adjust_columns ws)"

subsection \<open>The workbook\<close>

text \<open>The three sheets, in the order of \<open>wb.sheetnames\<close> (the default sheet is removed).\<close>

record workbook =
  Device_sheet :: worksheet
  Software_sheet :: worksheet
  Vulnerability_sheet :: worksheet

text \<open>Everything \<open>save_to_excel\<close> does before \<open>wb.save\<close>.\<close>

definition build_workbook :: "Device list \<Rightarrow> error + workbook" where
  "build_workbook devices =
     bindE (write_headers create_sheet 1 devices_headers) (\<lambda>devices_ws.
     bindE (write_devices devices_ws 2 devices) (\<lambda>devices_ws.
     bindE (write_headers create_sheet 1 software_headers) (\<lambda>software_ws.
     bindE (write_software software_ws 2 devices) (\<lambda>software_ws.
     bindE (write_headers create_sheet 1 vuln_headers) (\<lambda>vulnerabilities_ws.
     bindE (write_vulnerabilities vulnerabilities_ws 2 devices) (\<lambda>vulnerabilities_ws.
     Inr \<lparr>Device_sheet = adjust_sheet devices_ws,
          Software_sheet = adjust_sheet software_ws,
          Vulnerability_sheet = adjust_sheet vulnerabilities_ws\<rparr>))))))"

text \<open>
  The effects on the outside: the files written and the lines printed. An exception
  leaves both as they were when it was raised.
\<close>

record world =
  files :: "pystr \<Rightarrow> workbook option"
  stdout :: "pystr list"

definition print :: "pystr \<Rightarrow> world \<Rightarrow> world" where
  "print line w = w\<lparr>stdout := stdout w @ [line]\<rparr>"

definition save_to_excel :: "Device list \<Rightarrow> pystr \<Rightarrow> world \<Rightarrow> error + world" where
  "save_to_excel devices output_file w =
     bindE (build_workbook devices) (\<lambda>wb.
     Inr (print (str ''Data successfully saved to '' @ output_file)
            (w\<lparr>files := (files w)(output_file \<mapsto> wb)\<rparr>)))"

section \<open>\<open>main\<close>\<close>

text \<open>
  \<open>load\<close> is what the \<open>with open(...)\<close> block yields: the parsed document or the
  exception raised by \<open>open\<close> or \<open>json.load\<close>. The result is the world after the run and
  the exception that left \<open>main\<close>, if any.
\<close>

definition main :: "error + pyval \<Rightarrow> world \<Rightarrow> world \<times> error option" where
  "main load w =
     (case load of
        Inl FileNotFoundError \<Rightarrow> (print (str ''Error: File 'response.json' not found.'') w, None)
      | Inl JSONDecodeError \<Rightarrow> (print (str ''Error: Invalid JSON format in 'response.json'.'') w, None)
      | Inl e \<Rightarrow> (w, Some e)
      | Inr data \<Rightarrow>
          (case bindE (iterate data) (mapE Device_from_dict) of
             Inl e \<Rightarrow> (w, Some e)
           | Inr devices \<Rightarrow>
               (case save_to_excel devices (str ''devices_grouped_rows.xlsx'') w of
                  Inl e \<Rightarrow> (w, Some e)
                | Inr w \<Rightarrow>
                    (print (str ''Processed '' @ str_int (int (length devices))
                            @ str '' devices. Results saved to devices_grouped_rows.xlsx'') w,
                     None))))"

section \<open>Devices as the classes declare them\<close>

text \<open>
  The constructors declare \<open>str\<close>, \<open>List[str]\<close>, \<open>int\<close> and \<open>bool\<close> fields. A sheet takes a
  string unchanged when the string has at most 32767 characters and none of the control
  characters the library refuses. The properties of the report are stated for valid
  devices: the fields hold values of the declared types, and every string the report
  writes for them (a string field, or a list of strings joined) is one the sheet takes
  unchanged.
\<close>

definition is_str :: "pyval \<Rightarrow> bool" where
  "is_str v = (case v of Scalar (SStr s) \<Rightarrow> True | _ \<Rightarrow> False)"

definition is_int :: "pyval \<Rightarrow> bool" where
  "is_int v = (case v of Scalar (SInt i) \<Rightarrow> True | _ \<Rightarrow> False)"

definition is_bool :: "pyval \<Rightarrow> bool" where
  "is_bool v = (case v of Scalar (SBool b) \<Rightarrow> True | _ \<Rightarrow> False)"

text \<open>The scalar a value is, and the strings a list of strings holds.\<close>

definition scalar_of :: "pyval \<Rightarrow> scalar" where
  "scalar_of v = (case v of Scalar s \<Rightarrow> s | _ \<Rightarrow> SNone)"

definition strs_of :: "pyval \<Rightarrow> pystr list" where
  "strs_of v = (case v of PList xs \<Rightarrow> map (\<lambda>x. case x of Scalar (SStr s) \<Rightarrow> s | _ \<Rightarrow> []) xs | _ \<Rightarrow> [])"

text \<open>
  What the specification means by a list of strings joined with \<open>", "\<close> (comma, space: the
  code points 44 and 32): the strings in order, each but the last followed by the
  separator.
\<close>

definition comma_joined :: "pystr list \<Rightarrow> pystr" where
  "comma_joined ss = (if ss = [] then [] else concat (map (\<lambda>s. s @ [44, 32]) (butlast ss)) @ last ss)"

definition accepted :: "pystr \<Rightarrow> bool" where
  "accepted s = (length s \<le> 32767 \<and> \<not> list_ex illegal_character s)"

definition ok_str :: "pyval \<Rightarrow> bool" where
  "ok_str v = (case v of Scalar (SStr s) \<Rightarrow> accepted s | _ \<Rightarrow> False)"

definition ok_str_list :: "pyval \<Rightarrow> bool" where
  "ok_str_list v =
     (case v of PList xs \<Rightarrow> list_all is_str xs \<and> accepted (comma_joined (strs_of v)) | _ \<Rightarrow> False)"

definition valid_OS :: "OS \<Rightarrow> bool" where
  "valid_OS x = (ok_str (OS.name x) \<and> ok_str (OS.version x))"

definition valid_Software :: "Software \<Rightarrow> bool" where
  "valid_Software x = (ok_str (Software.name x) \<and> ok_str (Software.version x) \<and> ok_str (Software.vendor x))"

definition valid_Vulnerability :: "Vulnerability \<Rightarrow> bool" where
  "valid_Vulnerability x =
     (ok_str (kaspersky_id x) \<and> ok_str (product_name x) \<and> ok_str (description_url x) \<and>
      ok_str (recommended_major_patch x) \<and> ok_str (recommended_minor_patch x) \<and>
      ok_str (severity_str x) \<and> is_int (severity x) \<and> ok_str_list (cve x) \<and>
      is_bool (exploit_exists x) \<and> is_bool (malware_exists x))"

definition valid_Device :: "Device \<Rightarrow> bool" where
  "valid_Device x =
     (ok_str (Device.name x) \<and> ok_str_list (fqdn x) \<and> ok_str_list (ip_addresses x) \<and>
      ok_str_list (mac_addresses x) \<and> ok_str (owner x) \<and> valid_OS (os x) \<and>
      list_all valid_Software (software x) \<and> list_all valid_Vulnerability (vulnerabilities x))"

section \<open>Closed forms of the row loops\<close>

text \<open>
  For valid devices no statement of the loops raises, and each loop writes a
  table of scalars row by row. The tables and the pure writer below are what the loops are
  shown to compute; the properties of the sheets are then read off the tables.
\<close>

fun set_values :: "worksheet \<Rightarrow> nat \<Rightarrow> nat \<Rightarrow> scalar list \<Rightarrow> worksheet" where
  "set_values ws r c [] = ws"
| "set_values ws r c (v # vs) = set_values (modify ws r c (\<lambda>x. wrap (x\<lparr>value := v\<rparr>))) r (Suc c) vs"

definition write_row :: "nat \<Rightarrow> worksheet \<Rightarrow> nat \<Rightarrow> scalar list \<Rightarrow> worksheet" where
  "write_row n ws r vs = apply_borders (set_values ws r 1 vs) r (Suc n)"

text \<open>What writing a row of values \<open>vs\<close> with \<open>n\<close> bordered columns makes of the cell in column \<open>c\<close>.\<close>

definition row_cell :: "nat \<Rightarrow> scalar list \<Rightarrow> nat \<Rightarrow> cell \<Rightarrow> cell" where
  "row_cell n vs c x =
     (let y = (if 1 \<le> c \<and> c \<le> length vs then wrap (x\<lparr>value := vs ! (c - 1)\<rparr>) else x)
      in if 1 \<le> c \<and> c \<le> n then set_border thin_border y else y)"

fun write_rows :: "nat \<Rightarrow> worksheet \<Rightarrow> nat \<Rightarrow> scalar list list \<Rightarrow> worksheet" where
  "write_rows n ws r [] = ws"
| "write_rows n ws r (vs # rows) = write_rows n (write_row n ws r vs) (Suc r) rows"

definition write_block :: "nat \<Rightarrow> worksheet \<Rightarrow> nat \<Rightarrow> scalar list list \<Rightarrow> worksheet" where
  "write_block n ws r b =
     (if length b > 1 then merge_cells (write_rows n ws r b) r 1 (r + length b - 1) 1
      else write_rows n ws r b)"

fun write_blocks :: "nat \<Rightarrow> worksheet \<Rightarrow> nat \<Rightarrow> scalar list list list \<Rightarrow> worksheet" where
  "write_blocks n ws r [] = ws"
| "write_blocks n ws r (b # bs) = write_blocks n (write_block n ws r b) (r + length b) bs"

text \<open>
  The cell in row \<open>i\<close> and column \<open>c\<close> of a block: in a block of several rows the cells of
  column 1 below the first are merged cells.
\<close>

definition block_cell :: "nat \<Rightarrow> scalar list list \<Rightarrow> nat \<Rightarrow> nat \<Rightarrow> cell \<Rightarrow> cell" where
  "block_cell n b i c x =
     (if 1 < length b \<and> 0 < i \<and> c = 1 then merged_cell thin_border True True False (Suc i = length b)
      else row_cell n (b ! i) c x)"

fun merges :: "nat \<Rightarrow> nat list \<Rightarrow> (nat \<times> nat \<times> nat \<times> nat) list" where
  "merges r [] = []"
| "merges r (h # hs) = (if h > 1 then [(r, 1, r + h - 1, 1)] else []) @ merges (r + h) hs"

fun set_headers :: "worksheet \<Rightarrow> nat \<Rightarrow> pystr list \<Rightarrow> worksheet" where
  "set_headers ws c [] = ws"
| "set_headers ws c (h # hs) = set_headers (modify ws 1 c (\<lambda>x. header_style (x\<lparr>value := SStr h\<rparr>))) (Suc c) hs"

definition joined :: "pyval \<Rightarrow> scalar" where
  "joined v = SStr (comma_joined (strs_of v))"

definition device_values :: "Device \<Rightarrow> scalar list" where
  "device_values d =
     [scalar_of (Device.name d), joined (fqdn d), joined (ip_addresses d), joined (mac_addresses d),
      scalar_of (owner d), scalar_of (OS.name (os d)), scalar_of (OS.version (os d))]"

fun software_values :: "bool \<Rightarrow> Device \<Rightarrow> Software list \<Rightarrow> scalar list list" where
  "software_values first d [] = []"
| "software_values first d (s # ss) =
     [if first then scalar_of (Device.name d) else SStr [],
      scalar_of (Software.name s), scalar_of (Software.version s), scalar_of (Software.vendor s)]
     # software_values False d ss"

definition software_block :: "Device \<Rightarrow> scalar list list" where
  "software_block d =
     (if software d = [] then [[scalar_of (Device.name d)]] else software_values True d (software d))"

fun vuln_values :: "bool \<Rightarrow> Device \<Rightarrow> Vulnerability list \<Rightarrow> scalar list list" where
  "vuln_values first d [] = []"
| "vuln_values first d (v # vs) =
     [if first then scalar_of (Device.name d) else SStr [],
      scalar_of (kaspersky_id v), scalar_of (product_name v), scalar_of (severity v),
      scalar_of (severity_str v), joined (cve v),
      scalar_of (yes_no (exploit_exists v)), scalar_of (yes_no (malware_exists v)),
      scalar_of (recommended_major_patch v), scalar_of (recommended_minor_patch v),
      scalar_of (description_url v)]
     # vuln_values False d vs"

definition vuln_block :: "Device \<Rightarrow> scalar list list" where
  "vuln_block d =
     (if vulnerabilities d = [] then [[scalar_of (Device.name d)]]
      else vuln_values True d (vulnerabilities d))"

text \<open>The three sheets before the widths and heights are set.\<close>

definition device_table :: "Device list \<Rightarrow> worksheet" where
  "device_table ds = write_rows 7 (set_headers create_sheet 1 devices_headers) 2 (map device_values ds)"

definition software_table :: "Device list \<Rightarrow> worksheet" where
  "software_table ds = write_blocks 4 (set_headers create_sheet 1 software_headers) 2 (map software_block ds)"

definition vuln_table :: "Device list \<Rightarrow> worksheet" where
  "vuln_table ds = write_blocks 11 (set_headers create_sheet 1 vuln_headers) 2 (map vuln_block ds)"

section \<open>Vocabulary of the properties\<close>

text \<open>
  The number of rows a device takes in a grouped sheet, and the row where the block of the
  \<open>k\<close>-th device begins (the header is row 1).
\<close>

definition block_height :: "'a list \<Rightarrow> nat" where
  "block_height items = (if items = [] then 1 else length items)"

definition block_start :: "nat list \<Rightarrow> nat \<Rightarrow> nat" where
  "block_start heights k = 2 + sum_list (take k heights)"

definition software_start :: "Device list \<Rightarrow> nat \<Rightarrow> nat" where
  "software_start devices k = block_start (map (\<lambda>d. block_height (software d)) devices) k"

definition vuln_start :: "Device list \<Rightarrow> nat \<Rightarrow> nat" where
  "vuln_start devices k = block_start (map (\<lambda>d. block_height (vulnerabilities d)) devices) k"

text \<open>A merged range covers a row when the row lies between its first and last row.\<close>

definition covers :: "nat \<times> nat \<times> nat \<times> nat \<Rightarrow> nat \<Rightarrow> bool" where
  "covers rng r = (case rng of (start_row, start_column, end_row, end_column) \<Rightarrow> start_row \<le> r \<and> r \<le> end_row)"

text \<open>
  A cell value is non-empty when it is neither \<open>None\<close> nor the empty string. The character
  length of a value is the length of its text: of the string itself, of the decimal
  numeral of an integer (with its sign), of \<open>True\<close> and \<open>False\<close>. The greatest character
  length of the non-empty values of a column, header included, is what the specification
  calls \<open>maxLength\<close>.
\<close>

definition non_empty :: "scalar \<Rightarrow> bool" where
  "non_empty v = (v \<noteq> SNone \<and> v \<noteq> SStr [])"

definition text_length :: "scalar \<Rightarrow> nat" where
  "text_length v =
     (case v of
        SStr s \<Rightarrow> length s
      | SInt i \<Rightarrow> (if i < 0 then 1 else 0) + (if i = 0 then 1 else floorlog 10 (nat \<bar>i\<bar>))
      | SBool b \<Rightarrow> (if b then 4 else 5)
      | SNone \<Rightarrow> 4)"

definition maxLength :: "worksheet \<Rightarrow> nat \<Rightarrow> nat" where
  "maxLength ws c =
     Max (set (0 # map (\<lambda>r. text_length (value (cells ws r c)))
                      (filter (\<lambda>r. non_empty (value (cells ws r c))) [1..<Suc (max_row ws)])))"

text \<open>
  The values the width computation passes over: \<open>None\<close>, the empty string, the integer 0
  and \<open>False\<close>. \<open>counted_length\<close> is the greatest character length of the other values of a
  column.
\<close>

definition skipped :: "scalar \<Rightarrow> bool" where
  "skipped v = (v = SNone \<or> v = SStr [] \<or> v = SInt 0 \<or> v = SBool False)"

definition counted_length :: "worksheet \<Rightarrow> nat \<Rightarrow> nat" where
  "counted_length ws c =
     Max (set (0 # map (\<lambda>r. text_length (value (cells ws r c)))
                      (filter (\<lambda>r. \<not> skipped (value (cells ws r c))) [1..<Suc (max_row ws)])))"

text \<open>
  A cell value with embedded newlines (code point 10), the number of its newline-separated
  lines, and the greatest such number in a row.
\<close>

definition has_newline :: "scalar \<Rightarrow> bool" where
  "has_newline v = (case v of SStr s \<Rightarrow> 10 \<in> set s | _ \<Rightarrow> False)"

definition line_count :: "scalar \<Rightarrow> nat" where
  "line_count v = (case v of SStr s \<Rightarrow> Suc (count_list s 10) | _ \<Rightarrow> 1)"

definition most_lines :: "worksheet \<Rightarrow> nat \<Rightarrow> nat" where
  "most_lines ws r =
     Max (set (1 # map (\<lambda>c. line_count (value (cells ws r c)))
                      (filter (\<lambda>c. has_newline (value (cells ws r c))) [1..<Suc (max_column ws)])))"

definition sheets :: "workbook \<Rightarrow> worksheet list" where
  "sheets wb = [Device_sheet wb, Software_sheet wb, Vulnerability_sheet wb]"

text \<open>The keys each \<open>from_dict\<close> reads, in the order it reads them.\<close>

definition OS_keys :: "pystr list" where
  "OS_keys = [str ''name'', str ''version'']"

definition Software_keys :: "pystr list" where
  "Software_keys = [str ''name'', str ''version'', str ''vendor'']"

definition Vulnerability_keys :: "pystr list" where
  "Vulnerability_keys = [str ''kasperskyID'', str ''productName'', str ''descriptionURL'',
     str ''recommendedMajorPatch'', str ''recommendedMinorPatch'', str ''severityStr'',
     str ''severity'', str ''cve'', str ''exploitExists'', str ''malwareExists'']"

definition Device_keys :: "pystr list" where
  "Device_keys = [str ''name'', str ''fqdn'', str ''ipAddresses'', str ''macAddresses'',
     str ''owner'', str ''os'', str ''software'', str ''vulnerabilities'']"

definition first_missing :: "(pystr \<times> pyval) list \<Rightarrow> pystr list \<Rightarrow> pystr option" where
  "first_missing kvs keys = find (\<lambda>k. map_of kvs k = None) keys"

definition is_error :: "error + 'a \<Rightarrow> bool" where
  "is_error r = (case r of Inl e \<Rightarrow> True | Inr x \<Rightarrow> False)"

definition no_world :: world where
  "no_world = \<lparr>files = (\<lambda>f. None), stdout = []\<rparr>"

section \<open>Example devices\<close>

text \<open>
  The device of the specification's end-to-end example (no software, one vulnerability) and a
  second one with two software items and no vulnerability.
\<close>

definition example_vuln :: Vulnerability where
  "example_vuln = \<lparr>kaspersky_id = Scalar (SStr (str ''KLA1'')), product_name = Scalar (SStr (str ''p'')),
     description_url = Scalar (SStr (str ''u'')), recommended_major_patch = Scalar (SStr (str ''1'')),
     recommended_minor_patch = Scalar (SStr (str ''0'')), severity_str = Scalar (SStr (str ''High'')),
     severity = Scalar (SInt 4), cve = PList [Scalar (SStr (str ''CVE-2020-1''))],
     exploit_exists = Scalar (SBool True), malware_exists = Scalar (SBool False)\<rparr>"

definition example_software :: "pystr \<Rightarrow> Software" where
  "example_software n = \<lparr>Software.name = Scalar (SStr n), Software.version = Scalar (SStr (str ''1.0'')),
     Software.vendor = Scalar (SStr (str ''v''))\<rparr>"

definition host1 :: Device where
  "host1 = \<lparr>Device.name = Scalar (SStr (str ''host1'')), fqdn = PList [],
     ip_addresses = PList [Scalar (SStr (str ''10.0.0.1''))], mac_addresses = PList [],
     owner = Scalar (SStr (str ''alice'')),
     os = \<lparr>OS.name = Scalar (SStr (str ''Linux'')), OS.version = Scalar (SStr (str ''5.10''))\<rparr>,
     software = [], vulnerabilities = [example_vuln]\<rparr>"

definition host2 :: Device where
  "host2 = \<lparr>Device.name = Scalar (SStr (str ''host2'')),
     fqdn = PList [Scalar (SStr (str ''a.example'')), Scalar (SStr (str ''b.example''))],
     ip_addresses = PList [], mac_addresses = PList [],
     owner = Scalar (SStr (str ''bob'')),
     os = \<lparr>OS.name = Scalar (SStr (str ''Linux'')), OS.version = Scalar (SStr (str ''6.1''))\<rparr>,
     software = [example_software (str ''vim''), example_software (str ''git'')],
     vulnerabilities = []\<rparr>"

definition example_devices :: "Device list" where
  "example_devices = [host1, host2]"

text \<open>A device whose owner is written on two lines.\<close>

definition host3 :: Device where
  "host3 = \<lparr>Device.name = Scalar (SStr (str ''host3'')), fqdn = PList [],
     ip_addresses = PList [], mac_addresses = PList [],
     owner = Scalar (SStr [111, 112, 115, 10, 116, 101, 97, 109]),
     os = \<lparr>OS.name = Scalar (SStr (str ''BSD'')), OS.version = Scalar (SStr (str ''14''))\<rparr>,
     software = [], vulnerabilities = []\<rparr>"

section \<open>Properties\<close>

lemma bindE_Inr [simp]: "bindE (Inr x) f = f x"
  by (simp add: bindE_def)

lemma bindE_Inl [simp]: "bindE (Inl e) f = Inl e"
  by (simp add: bindE_def)

lemma check_string_accepted: "accepted s \<Longrightarrow> check_string s = Inr s"
  by (simp add: check_string_def accepted_def)

lemma put_accepted:
  "accepted s \<Longrightarrow>
     put ws r c (Scalar (SStr s)) style = Inr (modify ws r c (\<lambda>x. style (x\<lparr>value := SStr s\<rparr>)))"
  by (simp add: put_def bind_value_def check_string_accepted)

lemma put_int [simp]:
  "put ws r c (Scalar (SInt i)) style = Inr (modify ws r c (\<lambda>x. style (x\<lparr>value := SInt i\<rparr>)))"
  by (simp add: put_def bind_value_def)

lemma accepted_Nil [simp]: "accepted []"
  by (simp add: accepted_def)

lemma cells_modify:
  "cells (modify ws r c f) r' c' = (if r' = r \<and> c' = c then f (cells ws r c) else cells ws r' c')"
  by (simp add: modify_def)

lemma modify_fields [simp]:
  "max_row (modify ws r c f) = max (max_row ws) r"
  "max_column (modify ws r c f) = max (max_column ws) c"
  "merged_cells (modify ws r c f) = merged_cells ws"
  "column_width (modify ws r c f) = column_width ws"
  "row_height (modify ws r c f) = row_height ws"
  by (simp_all add: modify_def)

lemma cells_merge_cells:
  "cells (merge_cells ws a b c d) r' c' =
     (if a \<le> r' \<and> r' \<le> c \<and> b \<le> c' \<and> c' \<le> d \<and> \<not> (r' = a \<and> c' = b)
      then merged_cell (border (cells ws a b)) (c' = b) (c' = d) (r' = a) (r' = c)
      else cells ws r' c')"
  by (simp add: merge_cells_def)

lemma merge_cells_fields [simp]:
  "max_row (merge_cells ws a b c d) = max (max_row ws) c"
  "max_column (merge_cells ws a b c d) = max (max_column ws) d"
  "merged_cells (merge_cells ws a b c d) = merged_cells ws @ [(a, b, c, d)]"
  "column_width (merge_cells ws a b c d) = column_width ws"
  "row_height (merge_cells ws a b c d) = row_height ws"
  by (simp_all add: merge_cells_def)

text \<open>Borders of one row.\<close>

lemma fold_borders_cells:
  "cells (fold (\<lambda>col w. modify w r col (set_border thin_border)) cs ws) r' c' =
     (if r' = r \<and> c' \<in> set cs then set_border thin_border (cells ws r' c') else cells ws r' c')"
proof (induction cs arbitrary: ws)
  case Nil
  then show ?case by simp
next
  case (Cons a cs)
  then show ?case by (auto simp: cells_modify set_border_def)
qed

lemma fold_borders_fields:
  "max_row (fold (\<lambda>col w. modify w r col (set_border thin_border)) cs ws) = (if cs = [] then max_row ws else max (max_row ws) r)"
  "max_column (fold (\<lambda>col w. modify w r col (set_border thin_border)) cs ws) = fold max cs (max_column ws)"
  "merged_cells (fold (\<lambda>col w. modify w r col (set_border thin_border)) cs ws) = merged_cells ws"
  "column_width (fold (\<lambda>col w. modify w r col (set_border thin_border)) cs ws) = column_width ws"
  "row_height (fold (\<lambda>col w. modify w r col (set_border thin_border)) cs ws) = row_height ws"
  by (induction cs arbitrary: ws; simp add: max.commute max.left_commute)+

lemma fold_max_upt: "fold max [a..<b] (m::nat) = (if a < b then max m (b - 1) else m)"
  by (induction b arbitrary: m) (auto simp: max_def)

lemma cells_apply_borders:
  "cells (apply_borders ws r n) r' c' =
     (if r' = r \<and> 1 \<le> c' \<and> c' < n then set_border thin_border (cells ws r' c') else cells ws r' c')"
  by (simp add: apply_borders_def fold_borders_cells)

lemma apply_borders_fields [simp]:
  "max_row (apply_borders ws r n) = (if 1 < n then max (max_row ws) r else max_row ws)"
  "max_column (apply_borders ws r n) = (if 1 < n then max (max_column ws) (n - 1) else max_column ws)"
  "merged_cells (apply_borders ws r n) = merged_cells ws"
  "column_width (apply_borders ws r n) = column_width ws"
  "row_height (apply_borders ws r n) = row_height ws"
  by (simp_all add: apply_borders_def fold_borders_fields fold_max_upt)

text \<open>Values of one row.\<close>

lemma cells_set_values:
  "cells (set_values ws r c vs) r' c' =
     (if r' = r \<and> c \<le> c' \<and> c' < c + length vs then wrap ((cells ws r' c')\<lparr>value := vs ! (c' - c)\<rparr>)
      else cells ws r' c')"
proof (induction vs arbitrary: ws c)
  case Nil
  then show ?case by auto
next
  case (Cons v vs)
  show ?case
    by (auto simp: Cons.IH cells_modify Suc_diff_le nth_Cons' )
qed

lemma set_values_fields [simp]:
  "max_row (set_values ws r c vs) = (if vs = [] then max_row ws else max (max_row ws) r)"
  "max_column (set_values ws r c vs) = (if vs = [] then max_column ws else max (max_column ws) (c + length vs - 1))"
  "merged_cells (set_values ws r c vs) = merged_cells ws"
  "column_width (set_values ws r c vs) = column_width ws"
  "row_height (set_values ws r c vs) = row_height ws"
  by (induction vs arbitrary: ws c; auto simp: max_def)+

lemma value_row_cell:
  "value (row_cell n vs c x) = (if 1 \<le> c \<and> c \<le> length vs then vs ! (c - 1) else value x)"
  by (simp add: row_cell_def Let_def wrap_def set_alignment_def set_border_def)

lemma border_row_cell:
  "1 \<le> c \<Longrightarrow> c \<le> n \<Longrightarrow> border (row_cell n vs c x) = thin_border"
  by (simp add: row_cell_def Let_def set_border_def)

lemma cells_write_row:
  "cells (write_row n ws r vs) r' c' = (if r' = r then row_cell n vs c' (cells ws r' c') else cells ws r' c')"
  by (auto simp: write_row_def cells_apply_borders cells_set_values row_cell_def Let_def)

lemma write_row_fields:
  "1 \<le> n \<Longrightarrow> max_row (write_row n ws r vs) = max (max_row ws) r"
  "1 \<le> n \<Longrightarrow> length vs \<le> n \<Longrightarrow> max_column (write_row n ws r vs) = max (max_column ws) n"
  "merged_cells (write_row n ws r vs) = merged_cells ws"
  "column_width (write_row n ws r vs) = column_width ws"
  "row_height (write_row n ws r vs) = row_height ws"
  by (auto simp: write_row_def max_def)

lemma cells_write_rows:
  "cells (write_rows n ws r rows) r' c' =
     (if r \<le> r' \<and> r' < r + length rows then row_cell n (rows ! (r' - r)) c' (cells ws r' c')
      else cells ws r' c')"
proof (induction rows arbitrary: ws r)
  case Nil
  then show ?case by auto
next
  case (Cons vs rows)
  show ?case
    by (auto simp: Cons.IH cells_write_row nth_Cons' Suc_diff_le)
qed

lemma write_rows_max_row:
  "1 \<le> n \<Longrightarrow> max_row (write_rows n ws r rows) =
     (if rows = [] then max_row ws else max (max_row ws) (r + length rows - 1))"
  by (induction rows arbitrary: ws r) (auto simp: write_row_fields max_def)

lemma write_rows_max_column:
  "1 \<le> n \<Longrightarrow> \<forall>vs \<in> set rows. length vs \<le> n \<Longrightarrow>
     max_column (write_rows n ws r rows) = (if rows = [] then max_column ws else max (max_column ws) n)"
  by (induction rows arbitrary: ws r) (auto simp: write_row_fields max_def)

lemma write_rows_fields [simp]:
  "merged_cells (write_rows n ws r rows) = merged_cells ws"
  "column_width (write_rows n ws r rows) = column_width ws"
  "row_height (write_rows n ws r rows) = row_height ws"
  by (induction rows arbitrary: ws r; simp add: write_row_fields)+

text \<open>Blocks.\<close>

lemma border_row_cell_first: "1 \<le> n \<Longrightarrow> border (row_cell n vs 1 x) = thin_border"
  by (simp add: border_row_cell)

lemma cells_write_block:
  assumes "1 \<le> n"
  shows "cells (write_block n ws r b) r' c' =
     (if r \<le> r' \<and> r' < r + length b then block_cell n b (r' - r) c' (cells ws r' c')
      else cells ws r' c')"
proof (cases "1 < length b")
  case False
  then show ?thesis
    by (simp add: write_block_def cells_write_rows block_cell_def)
next
  case True
  from True have "b \<noteq> []" by auto
  then have start: "border (cells (write_rows n ws r b) r 1) = thin_border"
    using assms by (simp add: cells_write_rows border_row_cell)
  have last: "r' = r + length b - 1 \<longleftrightarrow> Suc (r' - r) = length b" if "r \<le> r'"
    using that True by auto
  show ?thesis
    using True last assms
    by (auto simp: write_block_def cells_merge_cells cells_write_rows block_cell_def border_row_cell)
qed

lemma write_block_max_row:
  "1 \<le> n \<Longrightarrow> max_row (write_block n ws r b) =
     (if b = [] then max_row ws else max (max_row ws) (r + length b - 1))"
  by (auto simp: write_block_def write_rows_max_row)

lemma write_block_max_column:
  "1 \<le> n \<Longrightarrow> \<forall>vs \<in> set b. length vs \<le> n \<Longrightarrow>
     max_column (write_block n ws r b) = (if b = [] then max_column ws else max (max_column ws) n)"
  by (auto simp: write_block_def write_rows_max_column max_def)

lemma write_block_fields [simp]:
  "merged_cells (write_block n ws r b) =
     merged_cells ws @ (if 1 < length b then [(r, 1, r + length b - 1, 1)] else [])"
  "column_width (write_block n ws r b) = column_width ws"
  "row_height (write_block n ws r b) = row_height ws"
  by (simp_all add: write_block_def merge_cells_def)

lemma write_blocks_frame:
  "1 \<le> n \<Longrightarrow> r' < r \<Longrightarrow> cells (write_blocks n ws r bs) r' c' = cells ws r' c'"
  by (induction bs arbitrary: ws r) (simp_all add: cells_write_block)

lemma write_blocks_block_cell:
  assumes "1 \<le> n"
  shows "k < length bs \<Longrightarrow> i < length (bs ! k) \<Longrightarrow>
     cells (write_blocks n ws r bs) (r + sum_list (take k (map length bs)) + i) c =
       block_cell n (bs ! k) i c (cells ws (r + sum_list (take k (map length bs)) + i) c)"
proof (induction bs arbitrary: ws r k)
  case Nil
  then show ?case by simp
next
  case (Cons b bs)
  show ?case
  proof (cases k)
    case 0
    with Cons.prems assms show ?thesis
      by (simp add: write_blocks_frame cells_write_block)
  next
    case (Suc j)
    with Cons.prems have j: "j < length bs" "i < length (bs ! j)"
      by simp_all
    have "cells (write_blocks n (write_block n ws r b) (r + length b) bs)
        (r + length b + sum_list (take j (map length bs)) + i) c =
      block_cell n (bs ! j) i c
        (cells (write_block n ws r b) (r + length b + sum_list (take j (map length bs)) + i) c)"
      by (rule Cons.IH [OF j])
    also have "cells (write_block n ws r b) (r + length b + sum_list (take j (map length bs)) + i) c =
        cells ws (r + length b + sum_list (take j (map length bs)) + i) c"
      using assms by (simp add: cells_write_block)
    finally show ?thesis
      using Suc by (simp add: add.assoc)
  qed
qed

lemma write_blocks_max_row:
  "1 \<le> n \<Longrightarrow> max_row (write_blocks n ws r bs) =
     (if sum_list (map length bs) = 0 then max_row ws
      else max (max_row ws) (r + sum_list (map length bs) - 1))"
proof (induction bs arbitrary: ws r)
  case Nil
  then show ?case by simp
next
  case (Cons b bs)
  define t where "t = sum_list (map length bs)"
  define ws1 where "ws1 = write_block n ws r b"
  have m1: "max_row ws1 = (if b = [] then max_row ws else max (max_row ws) (r + length b - 1))"
    using Cons.prems by (simp add: ws1_def write_block_max_row)
  have ih: "max_row (write_blocks n ws1 (r + length b) bs) =
      (if t = 0 then max_row ws1 else max (max_row ws1) (r + length b + t - 1))"
    using Cons.IH [OF Cons.prems] by (simp add: t_def)
  have "max_row (write_blocks n ws r (b # bs)) = max_row (write_blocks n ws1 (r + length b) bs)"
    by (simp add: ws1_def)
  also have "\<dots> = (if length b + t = 0 then max_row ws
      else max (max_row ws) (r + (length b + t) - 1))"
    unfolding ih m1 by (cases "b = []"; cases "t = 0") (auto simp: max_def)
  finally show ?case by (simp add: t_def)
qed

lemma write_blocks_max_column:
  "1 \<le> n \<Longrightarrow> \<forall>b \<in> set bs. \<forall>vs \<in> set b. length vs \<le> n \<Longrightarrow>
     max_column (write_blocks n ws r bs) =
       (if sum_list (map length bs) = 0 then max_column ws else max (max_column ws) n)"
proof (induction bs arbitrary: ws r)
  case Nil
  then show ?case by simp
next
  case (Cons b bs)
  define t where "t = sum_list (map length bs)"
  define ws1 where "ws1 = write_block n ws r b"
  have m1: "max_column ws1 = (if b = [] then max_column ws else max (max_column ws) n)"
    using Cons.prems by (simp add: ws1_def write_block_max_column)
  have ih: "max_column (write_blocks n ws1 (r + length b) bs) =
      (if t = 0 then max_column ws1 else max (max_column ws1) n)"
    using Cons.IH [of ws1 "r + length b"] Cons.prems by (simp add: t_def)
  have "max_column (write_blocks n ws r (b # bs)) = max_column (write_blocks n ws1 (r + length b) bs)"
    by (simp add: ws1_def)
  also have "\<dots> = (if length b + t = 0 then max_column ws else max (max_column ws) n)"
    unfolding ih m1 by (cases "b = []"; cases "t = 0") (auto simp: max_def)
  finally show ?case by (simp add: t_def)
qed

lemma write_blocks_merged:
  "merged_cells (write_blocks n ws r bs) = merged_cells ws @ merges r (map length bs)"
  by (induction bs arbitrary: ws r) auto

lemma write_blocks_fields [simp]:
  "column_width (write_blocks n ws r bs) = column_width ws"
  "row_height (write_blocks n ws r bs) = row_height ws"
  by (induction bs arbitrary: ws r; simp)+

lemma length_concat_sum: "length (concat bs) = sum_list (map length bs)"
  by (induction bs) auto

lemma sum_take_le:
  "k < length (hs::nat list) \<Longrightarrow> sum_list (take k hs) + hs ! k \<le> sum_list hs"
proof (induction hs arbitrary: k)
  case Nil
  then show ?case by simp
next
  case (Cons h hs)
  then show ?case by (cases k) auto
qed

lemma sum_take_Suc:
  "k < length (hs::nat list) \<Longrightarrow> sum_list (take (Suc k) hs) = sum_list (take k hs) + hs ! k"
  by (simp add: take_Suc_conv_app_nth)

text \<open>The merged ranges, block by block.\<close>

lemma set_merges:
  "set (merges r hs) =
     {(r + sum_list (take k hs), 1, r + sum_list (take k hs) + hs ! k - 1, 1) | k. k < length hs \<and> 1 < hs ! k}"
proof (induction hs arbitrary: r)
  case Nil
  then show ?case by simp
next
  case (Cons h hs)
  have *: "{(r + sum_list (take k (h # hs)), 1, r + sum_list (take k (h # hs)) + (h # hs) ! k - 1, 1) | k.
             k < length (h # hs) \<and> 1 < (h # hs) ! k}
         = (if 1 < h then {(r, 1::nat, r + h - 1, 1::nat)} else {}) \<union>
           {(r + h + sum_list (take k hs), 1, r + h + sum_list (take k hs) + hs ! k - 1, 1) | k.
             k < length hs \<and> 1 < hs ! k}" (is "?L = ?R")
  proof (intro set_eqI iffI)
    fix x assume "x \<in> ?L"
    then obtain k where k: "k < length (h # hs)" "1 < (h # hs) ! k"
      and x: "x = (r + sum_list (take k (h # hs)), 1, r + sum_list (take k (h # hs)) + (h # hs) ! k - 1, 1)"
      by blast
    show "x \<in> ?R"
    proof (cases k)
      case 0
      with k x show ?thesis by simp
    next
      case (Suc j)
      with k x have "j < length hs" "1 < hs ! j"
        "x = (r + h + sum_list (take j hs), 1, r + h + sum_list (take j hs) + hs ! j - 1, 1)"
        by (simp_all add: add.assoc)
      then show ?thesis by blast
    qed
  next
    fix x assume "x \<in> ?R"
    then consider "1 < h" "x = (r, 1, r + h - 1, 1)"
      | j where "j < length hs" "1 < hs ! j"
          "x = (r + h + sum_list (take j hs), 1, r + h + sum_list (take j hs) + hs ! j - 1, 1)"
      by (auto split: if_splits)
    then show "x \<in> ?L"
    proof cases
      case 1
      then have "0 < length (h # hs) \<and> 1 < (h # hs) ! 0 \<and>
        x = (r + sum_list (take 0 (h # hs)), 1, r + sum_list (take 0 (h # hs)) + (h # hs) ! 0 - 1, 1)"
        by simp
      then show ?thesis by blast
    next
      case 2
      then have "Suc j < length (h # hs) \<and> 1 < (h # hs) ! Suc j \<and>
        x = (r + sum_list (take (Suc j) (h # hs)), 1,
             r + sum_list (take (Suc j) (h # hs)) + (h # hs) ! Suc j - 1, 1)"
        by (simp add: add.assoc)
      then show ?thesis by blast
    qed
  qed
  show ?case
    unfolding * by (simp add: Cons.IH)
qed

text \<open>Values of valid devices.\<close>

lemma is_str_conv: "is_str v \<longleftrightarrow> (\<exists>s. v = Scalar (SStr s))"
  by (auto simp: is_str_def split: pyval.splits scalar.splits)

lemma is_int_conv: "is_int v \<longleftrightarrow> (\<exists>i. v = Scalar (SInt i))"
  by (auto simp: is_int_def split: pyval.splits scalar.splits)

lemma is_bool_conv: "is_bool v \<longleftrightarrow> (\<exists>b. v = Scalar (SBool b))"
  by (auto simp: is_bool_def split: pyval.splits scalar.splits)

lemma ok_str_conv: "ok_str v \<longleftrightarrow> (\<exists>s. v = Scalar (SStr s) \<and> accepted s)"
  by (auto simp: ok_str_def split: pyval.splits scalar.splits)

lemma ok_str_list_conv:
  "ok_str_list v \<longleftrightarrow> (\<exists>xs. v = PList xs \<and> list_all is_str xs \<and> accepted (comma_joined (strs_of v)))"
  by (auto simp: ok_str_list_def split: pyval.splits)

lemma ok_str_scalar: "ok_str v \<Longrightarrow> Scalar (scalar_of v) = v"
  by (auto simp: ok_str_conv scalar_of_def)

lemma is_int_scalar: "is_int v \<Longrightarrow> Scalar (scalar_of v) = v"
  by (auto simp: is_int_conv scalar_of_def)

lemma strs_of_strings [simp]: "strs_of (PList (map (\<lambda>s. Scalar (SStr s)) ss)) = ss"
  by (simp add: strs_of_def comp_def)

lemma put_ok_str:
  "ok_str v \<Longrightarrow> put ws r c v style = Inr (modify ws r c (\<lambda>x. style (x\<lparr>value := scalar_of v\<rparr>)))"
  by (auto simp: ok_str_conv scalar_of_def put_accepted)

lemma put_is_int:
  "is_int v \<Longrightarrow> put ws r c v style = Inr (modify ws r c (\<lambda>x. style (x\<lparr>value := scalar_of v\<rparr>)))"
  by (auto simp: is_int_conv scalar_of_def)

lemma put_yes_no:
  "put ws r c (yes_no v) style = Inr (modify ws r c (\<lambda>x. style (x\<lparr>value := scalar_of (yes_no v)\<rparr>)))"
  by (simp add: yes_no_def scalar_of_def put_accepted accepted_def illegal_character_def)

lemma put_empty:
  "put ws r c (Scalar (SStr [])) style = Inr (modify ws r c (\<lambda>x. style (x\<lparr>value := SStr []\<rparr>)))"
  by (simp add: put_accepted)

text \<open>The join of the program is the join of the specification.\<close>

lemma join_str_comma: "join_str [44, 32] ss = comma_joined ss"
proof (induction "[44::nat, 32]" ss rule: join_str.induct)
  case 1
  then show ?case by (simp add: comma_joined_def)
next
  case (2 s)
  then show ?case by (simp add: comma_joined_def)
next
  case (3 s t ss)
  then show ?case by (simp add: comma_joined_def)
qed

lemma mapE_as_str:
  "list_all is_str xs \<Longrightarrow>
     mapE as_str xs = Inr (map (\<lambda>x. case x of Scalar (SStr s) \<Rightarrow> s | _ \<Rightarrow> []) xs)"
  by (induction xs) (auto simp: is_str_conv as_str_def)

lemma join_ok_str_list:
  "ok_str_list v \<Longrightarrow> join sep v = Inr (comma_joined (strs_of v))"
  by (auto simp: ok_str_list_conv join_def iterate_def mapE_as_str strs_of_def sep_def join_str_comma)

lemma put_joined:
  "ok_str_list v \<Longrightarrow>
     put ws r c (Scalar (SStr (comma_joined (strs_of v)))) style =
       Inr (modify ws r c (\<lambda>x. style (x\<lparr>value := joined v\<rparr>)))"
  by (auto simp: ok_str_list_conv put_accepted joined_def)

text \<open>The loops compute the tables.\<close>

lemma write_headers_eq:
  "list_all accepted hs \<Longrightarrow> write_headers ws c hs = Inr (set_headers ws c hs)"
  by (induction hs arbitrary: ws c) (simp_all add: put_accepted)

lemma headers_accepted:
  "list_all accepted devices_headers" "list_all accepted software_headers" "list_all accepted vuln_headers"
  by (simp_all add: devices_headers_def software_headers_def vuln_headers_def accepted_def
      illegal_character_def)

lemma device_row_eq:
  assumes "valid_Device d"
  shows "device_row ws r d = Inr (write_row 7 ws r (device_values d))"
proof -
  from assms have
    "ok_str (Device.name d)" "ok_str_list (fqdn d)" "ok_str_list (ip_addresses d)"
    "ok_str_list (mac_addresses d)" "ok_str (owner d)"
    "ok_str (OS.name (os d))" "ok_str (OS.version (os d))"
    by (simp_all add: valid_Device_def valid_OS_def)
  then show ?thesis
    by (simp add: device_row_def put_ok_str join_ok_str_list put_joined write_row_def
        device_values_def eval_nat_numeral)
qed

lemma write_devices_eq:
  "list_all valid_Device ds \<Longrightarrow> write_devices ws r ds = Inr (write_rows 7 ws r (map device_values ds))"
  by (induction ds arbitrary: ws r) (simp_all add: device_row_eq)

lemma software_row_eq:
  assumes "valid_Device d" "valid_Software s"
  shows "software_row ws rn start d s =
     Inr (write_row 4 ws rn [if rn = start then scalar_of (Device.name d) else SStr [],
        scalar_of (Software.name s), scalar_of (Software.version s), scalar_of (Software.vendor s)])"
proof -
  from assms have
    "ok_str (Device.name d)" "ok_str (Software.name s)" "ok_str (Software.version s)"
    "ok_str (Software.vendor s)"
    by (simp_all add: valid_Device_def valid_Software_def)
  then show ?thesis
    by (simp add: software_row_def put_ok_str put_empty write_row_def eval_nat_numeral)
qed

lemma software_rows_eq:
  "valid_Device d \<Longrightarrow> list_all valid_Software ss \<Longrightarrow> start \<le> rn \<Longrightarrow>
     software_rows ws rn start d ss =
       Inr (write_rows 4 ws rn (software_values (rn = start) d ss), rn + length ss)"
  by (induction ss arbitrary: ws rn) (simp_all add: software_row_eq)

lemma length_software_values [simp]: "length (software_values first d ss) = length ss"
  by (induction ss arbitrary: first) simp_all

lemma write_software_eq:
  "list_all valid_Device ds \<Longrightarrow> write_software ws r ds = Inr (write_blocks 4 ws r (map software_block ds))"
proof (induction ds arbitrary: ws r)
  case Nil
  then show ?case by simp
next
  case (Cons d ds)
  then have d: "valid_Device d" and ds: "list_all valid_Device ds"
    by simp_all
  from d have n: "ok_str (Device.name d)" and ss: "list_all valid_Software (software d)"
    by (simp_all add: valid_Device_def)
  show ?case
  proof (cases "software d = []")
    case True
    then show ?thesis
      by (simp add: put_ok_str [OF n] Cons.IH [OF ds] software_block_def write_row_def write_block_def)
  next
    case False
    then show ?thesis
      by (simp add: software_rows_eq [OF d ss] Cons.IH [OF ds] software_block_def write_block_def)
  qed
qed

lemma vuln_row_eq:
  assumes "valid_Device d" "valid_Vulnerability v"
  shows "vuln_row ws rn start d v =
     Inr (write_row 11 ws rn [if rn = start then scalar_of (Device.name d) else SStr [],
        scalar_of (kaspersky_id v), scalar_of (product_name v), scalar_of (severity v),
        scalar_of (severity_str v), joined (cve v),
        scalar_of (yes_no (exploit_exists v)), scalar_of (yes_no (malware_exists v)),
        scalar_of (recommended_major_patch v), scalar_of (recommended_minor_patch v),
        scalar_of (description_url v)])"
proof -
  from assms have
    "ok_str (Device.name d)" "ok_str (kaspersky_id v)" "ok_str (product_name v)"
    "is_int (severity v)" "ok_str (severity_str v)" "ok_str_list (cve v)"
    "ok_str (recommended_major_patch v)" "ok_str (recommended_minor_patch v)"
    "ok_str (description_url v)"
    by (simp_all add: valid_Device_def valid_Vulnerability_def)
  then show ?thesis
    by (simp add: vuln_row_def put_ok_str put_is_int put_yes_no put_empty join_ok_str_list put_joined
        write_row_def eval_nat_numeral)
qed

lemma vuln_rows_eq:
  "valid_Device d \<Longrightarrow> list_all valid_Vulnerability vs \<Longrightarrow> start \<le> rn \<Longrightarrow>
     vuln_rows ws rn start d vs =
       Inr (write_rows 11 ws rn (vuln_values (rn = start) d vs), rn + length vs)"
  by (induction vs arbitrary: ws rn) (simp_all add: vuln_row_eq)

lemma length_vuln_values [simp]: "length (vuln_values first d vs) = length vs"
  by (induction vs arbitrary: first) simp_all

lemma write_vulnerabilities_eq:
  "list_all valid_Device ds \<Longrightarrow>
     write_vulnerabilities ws r ds = Inr (write_blocks 11 ws r (map vuln_block ds))"
proof (induction ds arbitrary: ws r)
  case Nil
  then show ?case by simp
next
  case (Cons d ds)
  then have d: "valid_Device d" and ds: "list_all valid_Device ds"
    by simp_all
  from d have n: "ok_str (Device.name d)" and vs: "list_all valid_Vulnerability (vulnerabilities d)"
    by (simp_all add: valid_Device_def)
  show ?case
  proof (cases "vulnerabilities d = []")
    case True
    then show ?thesis
      by (simp add: put_ok_str [OF n] Cons.IH [OF ds] vuln_block_def write_row_def write_block_def)
  next
    case False
    then show ?thesis
      by (simp add: vuln_rows_eq [OF d vs] Cons.IH [OF ds] vuln_block_def write_block_def)
  qed
qed

lemma build_workbook_eq:
  "list_all valid_Device ds \<Longrightarrow>
     build_workbook ds = Inr \<lparr>Device_sheet = adjust_sheet (device_table ds),
       Software_sheet = adjust_sheet (software_table ds),
       Vulnerability_sheet = adjust_sheet (vuln_table ds)\<rparr>"
  by (simp add: build_workbook_def write_headers_eq headers_accepted write_devices_eq write_software_eq
      write_vulnerabilities_eq device_table_def software_table_def vuln_table_def)

text \<open>Headers.\<close>

lemma cells_set_headers:
  "cells (set_headers ws c hs) r' c' =
     (if r' = 1 \<and> c \<le> c' \<and> c' < c + length hs
      then header_style ((cells ws r' c')\<lparr>value := SStr (hs ! (c' - c))\<rparr>)
      else cells ws r' c')"
proof (induction hs arbitrary: ws c)
  case Nil
  then show ?case by auto
next
  case (Cons h hs)
  show ?case
    by (auto simp: Cons.IH cells_modify Suc_diff_le nth_Cons')
qed

lemma set_headers_fields [simp]:
  "max_row (set_headers ws c hs) = (if hs = [] then max_row ws else max (max_row ws) 1)"
  "max_column (set_headers ws c hs) = (if hs = [] then max_column ws else max (max_column ws) (c + length hs - 1))"
  "merged_cells (set_headers ws c hs) = merged_cells ws"
  "column_width (set_headers ws c hs) = column_width ws"
  "row_height (set_headers ws c hs) = row_height ws"
  by (induction hs arbitrary: ws c; auto simp: max_def)+

lemma create_sheet_fields [simp]:
  "cells create_sheet r c = blank_cell"
  "max_row create_sheet = 0"
  "max_column create_sheet = 0"
  "merged_cells create_sheet = []"
  "column_width create_sheet c = None"
  "row_height create_sheet r = None"
  by (simp_all add: create_sheet_def)

lemma value_header_style [simp]: "value (header_style x) = value x"
  by (simp add: header_style_def)

lemma header_sheet_value:
  "value (cells (set_headers create_sheet 1 hs) r c) =
     (if r = 1 \<and> 1 \<le> c \<and> c \<le> length hs then SStr (hs ! (c - 1)) else SNone)"
  by (auto simp: cells_set_headers blank_cell_def)

text \<open>Column widths and row heights leave the cells alone.\<close>

lemma adjust_column_fields [simp]:
  "cells (adjust_column c ws) = cells ws"
  "max_row (adjust_column c ws) = max_row ws"
  "max_column (adjust_column c ws) = max_column ws"
  "merged_cells (adjust_column c ws) = merged_cells ws"
  "row_height (adjust_column c ws) = row_height ws"
  by (simp_all add: adjust_column_def)

lemma column_cells_adjust_column [simp]: "column_cells (adjust_column c ws) c' = column_cells ws c'"
  by (simp add: column_cells_def)

lemma fold_adjust_column_fields [simp]:
  "cells (fold adjust_column cs ws) = cells ws"
  "max_row (fold adjust_column cs ws) = max_row ws"
  "max_column (fold adjust_column cs ws) = max_column ws"
  "merged_cells (fold adjust_column cs ws) = merged_cells ws"
  "row_height (fold adjust_column cs ws) = row_height ws"
  by (induction cs arbitrary: ws; simp)+

lemma column_cells_fold_adjust [simp]: "column_cells (fold adjust_column cs ws) c = column_cells ws c"
  by (simp add: column_cells_def)

lemma fold_adjust_column_width:
  "column_width (fold adjust_column cs ws) c =
     (if c \<in> set cs then Some (adjusted_width (max_length_loop 0 (column_cells ws c)))
      else column_width ws c)"
proof (induction cs arbitrary: ws)
  case Nil
  then show ?case by simp
next
  case (Cons a cs)
  show ?case
    by (simp add: Cons.IH) (simp add: adjust_column_def)
qed

lemma adjust_row_fields [simp]:
  "cells (adjust_row r ws) = cells ws"
  "max_row (adjust_row r ws) = max_row ws"
  "max_column (adjust_row r ws) = max_column ws"
  "merged_cells (adjust_row r ws) = merged_cells ws"
  "column_width (adjust_row r ws) = column_width ws"
  by (simp_all add: adjust_row_def Let_def)

lemma row_cells_adjust_row [simp]: "row_cells (adjust_row r ws) r' = row_cells ws r'"
  by (simp add: row_cells_def)

lemma fold_adjust_row_fields [simp]:
  "cells (fold adjust_row rs ws) = cells ws"
  "max_row (fold adjust_row rs ws) = max_row ws"
  "max_column (fold adjust_row rs ws) = max_column ws"
  "merged_cells (fold adjust_row rs ws) = merged_cells ws"
  "column_width (fold adjust_row rs ws) = column_width ws"
  by (induction rs arbitrary: ws; simp)+

lemma row_cells_fold_adjust [simp]: "row_cells (fold adjust_row rs ws) r = row_cells ws r"
  by (simp add: row_cells_def)

lemma fold_adjust_row_height:
  "row_height (fold adjust_row rs ws) r =
     (if r \<in> set rs \<and> 1 < max_lines_loop 1 (row_cells ws r)
      then Some (15 * max_lines_loop 1 (row_cells ws r))
      else row_height ws r)"
proof (induction rs arbitrary: ws)
  case Nil
  then show ?case by simp
next
  case (Cons a rs)
  show ?case
    by (simp add: Cons.IH) (simp add: adjust_row_def Let_def)
qed

lemma adjust_sheet_fields [simp]:
  "cells (adjust_sheet ws) = cells ws"
  "max_row (adjust_sheet ws) = max_row ws"
  "max_column (adjust_sheet ws) = max_column ws"
  "merged_cells (adjust_sheet ws) = merged_cells ws"
  by (simp_all add: adjust_sheet_def adjust_rows_def adjust_columns_def)

lemma column_cells_adjust_sheet [simp]: "column_cells (adjust_sheet ws) c = column_cells ws c"
  by (simp add: column_cells_def)

lemma row_cells_adjust_sheet [simp]: "row_cells (adjust_sheet ws) r = row_cells ws r"
  by (simp add: row_cells_def)

lemma adjust_sheet_width:
  "column_width (adjust_sheet ws) c =
     (if 1 \<le> c \<and> c \<le> max_column ws then Some (adjusted_width (max_length_loop 0 (column_cells ws c)))
      else column_width ws c)"
  by (auto simp: adjust_sheet_def adjust_rows_def adjust_columns_def fold_adjust_column_width)

lemma adjust_sheet_height:
  "row_height (adjust_sheet ws) r =
     (if 1 \<le> r \<and> r \<le> max_row ws \<and> 1 < max_lines_loop 1 (row_cells ws r)
      then Some (15 * max_lines_loop 1 (row_cells ws r))
      else row_height ws r)"
  by (auto simp: adjust_sheet_def adjust_rows_def adjust_columns_def fold_adjust_row_height row_cells_def)

lemmas example_defs = example_devices_def host1_def host2_def host3_def example_vuln_def
  example_software_def

lemmas valid_defs = valid_Device_def valid_OS_def valid_Software_def valid_Vulnerability_def
  ok_str_def ok_str_list_def is_str_def is_int_def is_bool_def accepted_def illegal_character_def
  strs_of_def comma_joined_def

lemma example_devices_valid: "list_all valid_Device example_devices"
  by (simp add: example_defs valid_defs)

lemma host3_valid: "list_all valid_Device [host3]"
  by (simp add: example_defs valid_defs)

lemma device_table_max_row: "max_row (device_table ds) = Suc (length ds)"
  by (simp add: device_table_def write_rows_max_row devices_headers_def)

lemma device_table_value:
  "i < length ds \<Longrightarrow> 1 \<le> c \<Longrightarrow> c \<le> 7 \<Longrightarrow>
     value (cells (device_table ds) (i + 2) c) = device_values (ds ! i) ! (c - 1)"
  by (simp add: device_table_def cells_write_rows value_row_cell device_values_def)

lemma valid_Device_nth: "list_all valid_Device ds \<Longrightarrow> i < length ds \<Longrightarrow> valid_Device (ds ! i)"
  by (simp add: list_all_length)

subsection \<open>The Device sheet\<close>

text \<open>
  C3. For valid devices the workbook is built, and its Device sheet holds the header row and
  exactly one data row per device, in input order: row \<open>i + 2\<close> is device \<open>i\<close>, with the name,
  the FQDNs joined with \<open>", "\<close>, the IP addresses joined, the MAC addresses joined, the owner,
  the OS name and the OS version in columns 1 to 7.
\<close>

theorem device_sheet_rows:
  assumes "list_all valid_Device devices"
  shows "\<exists>wb. build_workbook devices = Inr wb \<and>
     max_row (Device_sheet wb) = 1 + length devices \<and>
     (\<forall>i<length devices.
        Scalar (value (cells (Device_sheet wb) (i + 2) 1)) = Device.name (devices ! i) \<and>
        value (cells (Device_sheet wb) (i + 2) 2) = SStr (comma_joined (strs_of (fqdn (devices ! i)))) \<and>
        value (cells (Device_sheet wb) (i + 2) 3) = SStr (comma_joined (strs_of (ip_addresses (devices ! i)))) \<and>
        value (cells (Device_sheet wb) (i + 2) 4) = SStr (comma_joined (strs_of (mac_addresses (devices ! i)))) \<and>
        Scalar (value (cells (Device_sheet wb) (i + 2) 5)) = owner (devices ! i) \<and>
        Scalar (value (cells (Device_sheet wb) (i + 2) 6)) = OS.name (os (devices ! i)) \<and>
        Scalar (value (cells (Device_sheet wb) (i + 2) 7)) = OS.version (os (devices ! i)))"
proof -
  have rows: "Scalar (value (cells (device_table devices) (i + 2) 1)) = Device.name (devices ! i) \<and>
        value (cells (device_table devices) (i + 2) 2) = SStr (comma_joined (strs_of (fqdn (devices ! i)))) \<and>
        value (cells (device_table devices) (i + 2) 3) = SStr (comma_joined (strs_of (ip_addresses (devices ! i)))) \<and>
        value (cells (device_table devices) (i + 2) 4) = SStr (comma_joined (strs_of (mac_addresses (devices ! i)))) \<and>
        Scalar (value (cells (device_table devices) (i + 2) 5)) = owner (devices ! i) \<and>
        Scalar (value (cells (device_table devices) (i + 2) 6)) = OS.name (os (devices ! i)) \<and>
        Scalar (value (cells (device_table devices) (i + 2) 7)) = OS.version (os (devices ! i))"
    if i: "i < length devices" for i
  proof -
    from assms i have "valid_Device (devices ! i)"
      by (rule valid_Device_nth)
    then have "ok_str (Device.name (devices ! i))" "ok_str (owner (devices ! i))"
      "ok_str (OS.name (os (devices ! i)))" "ok_str (OS.version (os (devices ! i)))"
      by (simp_all add: valid_Device_def valid_OS_def)
    moreover note device_table_value [OF i, of 1] device_table_value [OF i, of 2]
      device_table_value [OF i, of 3] device_table_value [OF i, of 4] device_table_value [OF i, of 5]
      device_table_value [OF i, of 6] device_table_value [OF i, of 7]
    ultimately show ?thesis
      by (simp add: device_values_def joined_def ok_str_scalar)
  qed
  show ?thesis
    using build_workbook_eq [OF assms] rows by (simp add: device_table_max_row)
qed

text \<open>
  At the two example devices: three rows, and the cells of rows 2 and 3 as they come out
  (\<open>host2\<close> has the FQDNs \<open>a.example\<close> and \<open>b.example\<close>).
\<close>

theorem device_sheet_rows_witness:
  "list_all valid_Device example_devices \<and>
   (\<exists>wb. build_workbook example_devices = Inr wb \<and>
     max_row (Device_sheet wb) = 3 \<and>
     map (\<lambda>c. value (cells (Device_sheet wb) 2 c)) [1, 2, 3, 4, 5, 6, 7] =
       [SStr (str ''host1''), SStr [], SStr (str ''10.0.0.1''), SStr [], SStr (str ''alice''),
        SStr (str ''Linux''), SStr (str ''5.10'')] \<and>
     map (\<lambda>c. value (cells (Device_sheet wb) 3 c)) [1, 2, 3, 4, 5, 6, 7] =
       [SStr (str ''host2''), SStr (str ''a.example, b.example''), SStr [], SStr [], SStr (str ''bob''),
        SStr (str ''Linux''), SStr (str ''6.1'')])"
proof -
  have valid: "list_all valid_Device example_devices"
    by (simp add: example_defs valid_defs)
  from device_sheet_rows [OF valid] obtain wb where
    wb: "build_workbook example_devices = Inr wb"
    and rows: "max_row (Device_sheet wb) = 1 + length example_devices"
    and cells: "\<And>i. i < length example_devices \<Longrightarrow>
        Scalar (value (cells (Device_sheet wb) (i + 2) 1)) = Device.name (example_devices ! i) \<and>
        value (cells (Device_sheet wb) (i + 2) 2) = SStr (comma_joined (strs_of (fqdn (example_devices ! i)))) \<and>
        value (cells (Device_sheet wb) (i + 2) 3) = SStr (comma_joined (strs_of (ip_addresses (example_devices ! i)))) \<and>
        value (cells (Device_sheet wb) (i + 2) 4) = SStr (comma_joined (strs_of (mac_addresses (example_devices ! i)))) \<and>
        Scalar (value (cells (Device_sheet wb) (i + 2) 5)) = owner (example_devices ! i) \<and>
        Scalar (value (cells (Device_sheet wb) (i + 2) 6)) = OS.name (os (example_devices ! i)) \<and>
        Scalar (value (cells (Device_sheet wb) (i + 2) 7)) = OS.version (os (example_devices ! i))"
    by blast
  have rows23: "(0::nat) + 2 = 2" "(1::nat) + 2 = 3"
    by simp_all
  have len: "0 < length example_devices" "1 < length example_devices"
    by (simp_all add: example_devices_def)
  note row2 = cells [OF len(1), unfolded rows23] and row3 = cells [OF len(2), unfolded rows23]
  from row2 row3 rows wb valid show ?thesis
    by (simp add: example_defs strs_of_def comma_joined_def)
qed

subsection \<open>The grouped sheets\<close>

lemma sum_list_take_mono:
  "a \<le> b \<Longrightarrow> sum_list (take a (hs::nat list)) \<le> sum_list (take b hs)"
proof -
  assume "a \<le> b"
  then have "take b hs = take a hs @ take (b - a) (drop a hs)"
    by (metis le_add_diff_inverse take_add)
  then show ?thesis by simp
qed

lemma block_start_Suc:
  "k < length hs \<Longrightarrow> block_start hs (Suc k) = block_start hs k + hs ! k"
  by (simp add: block_start_def sum_take_Suc)

lemma block_start_mono:
  assumes "j < k" "j < length hs"
  shows "block_start hs j + hs ! j \<le> block_start hs k"
proof -
  have "sum_list (take (Suc j) hs) \<le> sum_list (take k hs)"
    using assms by (intro sum_list_take_mono) simp
  with assms show ?thesis
    by (simp add: block_start_def sum_take_Suc)
qed

lemma block_start_inj:
  assumes "\<forall>h\<in>set hs. 1 \<le> h" "j < length hs" "k < length hs" "block_start hs j = block_start hs k"
  shows "j = k"
proof (rule ccontr)
  assume "j \<noteq> k"
  then consider "j < k" | "k < j" by linarith
  then show False
  proof cases
    case 1
    have "1 \<le> hs ! j" using assms(1,2) by simp
    with block_start_mono [OF 1 assms(2)] assms(4) show False by linarith
  next
    case 2
    have "1 \<le> hs ! k" using assms(1,3) by simp
    with block_start_mono [OF 2 assms(3)] assms(4) show False by linarith
  qed
qed

lemma set_merges_block_start:
  "set (merges 2 hs) =
     {(block_start hs k, 1, block_start hs k + hs ! k - 1, 1) | k. k < length hs \<and> 1 < hs ! k}"
  unfolding block_start_def by (rule set_merges)

lemma merges_memberD:
  assumes "rng \<in> set (merges 2 hs)"
  obtains j where "j < length hs" "1 < hs ! j"
    "rng = (block_start hs j, 1, block_start hs j + hs ! j - 1, 1)"
proof -
  from assms have "\<exists>j. rng = (block_start hs j, 1, block_start hs j + hs ! j - 1, 1) \<and>
      j < length hs \<and> 1 < hs ! j"
    unfolding set_merges_block_start by (simp only: mem_Collect_eq)
  then show thesis using that by blast
qed

lemma merges_memberI:
  assumes "j < length hs" "1 < hs ! j"
  shows "(block_start hs j, 1, block_start hs j + hs ! j - 1, 1) \<in> set (merges 2 hs)"
proof -
  from assms have "\<exists>k. (block_start hs j, 1::nat, block_start hs j + hs ! j - 1, 1::nat) =
      (block_start hs k, 1, block_start hs k + hs ! k - 1, 1) \<and> k < length hs \<and> 1 < hs ! k"
    by blast
  then show ?thesis
    unfolding set_merges_block_start by (simp only: mem_Collect_eq)
qed

lemma merges_member_iff:
  assumes "\<forall>h\<in>set hs. 1 \<le> h" "k < length hs"
  shows "(block_start hs k, 1, block_start hs k + hs ! k - 1, 1) \<in> set (merges 2 hs) \<longleftrightarrow> 1 < hs ! k"
proof
  assume "(block_start hs k, 1, block_start hs k + hs ! k - 1, 1) \<in> set (merges 2 hs)"
  then obtain j where j: "j < length hs" "1 < hs ! j"
    and eq: "(block_start hs k, 1::nat, block_start hs k + hs ! k - 1, 1::nat) =
      (block_start hs j, 1, block_start hs j + hs ! j - 1, 1)"
    by (rule merges_memberD)
  from eq have "block_start hs k = block_start hs j"
    by (simp only: prod.inject)
  with assms j(1) have "k = j"
    by (intro block_start_inj [of hs k j])
  with j show "1 < hs ! k" by simp
next
  assume "1 < hs ! k"
  with assms(2) show "(block_start hs k, 1, block_start hs k + hs ! k - 1, 1) \<in> set (merges 2 hs)"
    by (rule merges_memberI)
qed

lemma merges_not_covering:
  assumes "\<forall>h\<in>set hs. 1 \<le> h" "k < length hs" "hs ! k = 1" "rng \<in> set (merges 2 hs)"
  shows "\<not> covers rng (block_start hs k)"
proof -
  from assms(4) obtain j where j: "j < length hs" "1 < hs ! j"
    and rng: "rng = (block_start hs j, 1, block_start hs j + hs ! j - 1, 1)"
    by (rule merges_memberD)
  from j assms(3) have "j \<noteq> k" by auto
  then consider "j < k" | "k < j" by linarith
  then show ?thesis
  proof cases
    case 1
    from block_start_mono [OF 1 j(1)] j(2) show ?thesis
      unfolding rng covers_def by simp
  next
    case 2
    from block_start_mono [OF 2 assms(2)] assms(3) show ?thesis
      unfolding rng covers_def by simp
  qed
qed

lemma block_start_ge: "2 \<le> block_start hs k"
  by (simp add: block_start_def)

text \<open>The Software sheet.\<close>

lemma length_software_block [simp]: "length (software_block d) = block_height (software d)"
  by (simp add: software_block_def block_height_def)

lemma software_heights: "map length (map software_block ds) = map (\<lambda>d. block_height (software d)) ds"
  by simp

lemma block_height_ge: "1 \<le> block_height xs"
  by (cases xs) (simp_all add: block_height_def)

lemma software_values_nth:
  "i < length ss \<Longrightarrow> software_values first d ss ! i =
     [if first \<and> i = 0 then scalar_of (Device.name d) else SStr [],
      scalar_of (Software.name (ss ! i)), scalar_of (Software.version (ss ! i)),
      scalar_of (Software.vendor (ss ! i))]"
proof (induction ss arbitrary: first i)
  case Nil
  then show ?case by simp
next
  case (Cons s ss)
  then show ?case by (cases i) simp_all
qed

lemma value_block_cell:
  "value (block_cell n b i c x) =
     (if 1 < length b \<and> 0 < i \<and> c = 1 then SNone
      else if 1 \<le> c \<and> c \<le> length (b ! i) then b ! i ! (c - 1) else value x)"
  by (simp add: block_cell_def value_row_cell merged_cell_def blank_cell_def)

lemma border_block_cell_single:
  "length b = 1 \<Longrightarrow> 1 \<le> c \<Longrightarrow> c \<le> n \<Longrightarrow> border (block_cell n b i c x) = thin_border"
  by (simp add: block_cell_def border_row_cell)

lemma software_table_cell:
  assumes "k < length ds" "i < block_height (software (ds ! k))"
  shows "cells (software_table ds) (software_start ds k + i) c =
      block_cell 4 (software_block (ds ! k)) i c blank_cell"
proof -
  have "2 \<le> software_start ds k + i"
    by (simp add: software_start_def block_start_def)
  then have "cells (set_headers create_sheet 1 software_headers) (software_start ds k + i) c = blank_cell"
    by (simp add: cells_set_headers)
  then show ?thesis
    unfolding software_table_def software_start_def block_start_def
    using write_blocks_block_cell [of 4 k "map software_block ds" i _ 2 c] assms
    by (simp add: comp_def)
qed

lemma software_table_merged:
  "merged_cells (software_table ds) = merges 2 (map (\<lambda>d. block_height (software d)) ds)"
  by (simp add: software_table_def write_blocks_merged comp_def)

lemma sum_heights_pos: "ds \<noteq> [] \<Longrightarrow> 0 < sum_list (map (\<lambda>d. block_height (f d)) ds)"
  by (cases ds) (simp_all add: block_height_def)

lemma software_table_max_row:
  "Suc (max_row (software_table ds)) = software_start ds (length ds)"
proof (cases "ds = []")
  case True
  then show ?thesis
    by (simp add: software_table_def software_start_def block_start_def software_headers_def)
next
  case False
  from sum_heights_pos [OF this, of software] show ?thesis
    by (simp add: software_table_def software_start_def block_start_def software_headers_def
        write_blocks_max_row comp_def max_def)
qed

text \<open>The Vulnerability sheet.\<close>

lemma length_vuln_block [simp]: "length (vuln_block d) = block_height (vulnerabilities d)"
  by (simp add: vuln_block_def block_height_def)

lemma vuln_values_nth:
  "i < length vs \<Longrightarrow> vuln_values first d vs ! i =
     [if first \<and> i = 0 then scalar_of (Device.name d) else SStr [],
      scalar_of (kaspersky_id (vs ! i)), scalar_of (product_name (vs ! i)), scalar_of (severity (vs ! i)),
      scalar_of (severity_str (vs ! i)), joined (cve (vs ! i)),
      scalar_of (yes_no (exploit_exists (vs ! i))), scalar_of (yes_no (malware_exists (vs ! i))),
      scalar_of (recommended_major_patch (vs ! i)), scalar_of (recommended_minor_patch (vs ! i)),
      scalar_of (description_url (vs ! i))]"
proof (induction vs arbitrary: first i)
  case Nil
  then show ?case by simp
next
  case (Cons v vs)
  then show ?case by (cases i) simp_all
qed

lemma vuln_table_cell:
  assumes "k < length ds" "i < block_height (vulnerabilities (ds ! k))"
  shows "cells (vuln_table ds) (vuln_start ds k + i) c =
      block_cell 11 (vuln_block (ds ! k)) i c blank_cell"
proof -
  have "2 \<le> vuln_start ds k + i"
    by (simp add: vuln_start_def block_start_def)
  then have "cells (set_headers create_sheet 1 vuln_headers) (vuln_start ds k + i) c = blank_cell"
    by (simp add: cells_set_headers)
  then show ?thesis
    unfolding vuln_table_def vuln_start_def block_start_def
    using write_blocks_block_cell [of 11 k "map vuln_block ds" i _ 2 c] assms
    by (simp add: comp_def)
qed

lemma vuln_table_merged:
  "merged_cells (vuln_table ds) = merges 2 (map (\<lambda>d. block_height (vulnerabilities d)) ds)"
  by (simp add: vuln_table_def write_blocks_merged comp_def)

lemma vuln_table_max_row:
  "Suc (max_row (vuln_table ds)) = vuln_start ds (length ds)"
proof (cases "ds = []")
  case True
  then show ?thesis
    by (simp add: vuln_table_def vuln_start_def block_start_def vuln_headers_def)
next
  case False
  from sum_heights_pos [OF this, of vulnerabilities] show ?thesis
    by (simp add: vuln_table_def vuln_start_def block_start_def vuln_headers_def
        write_blocks_max_row comp_def max_def)
qed

lemma heights_ge:
  "\<forall>h\<in>set (map (\<lambda>d. block_height (f d)) ds). 1 \<le> h"
  by (simp add: block_height_ge [unfolded One_nat_def])

lemma software_start_Suc:
  "k < length ds \<Longrightarrow>
     software_start ds (Suc k) = software_start ds k + block_height (software (ds ! k))"
  by (simp add: software_start_def block_start_Suc)

lemma vuln_start_Suc:
  "k < length ds \<Longrightarrow>
     vuln_start ds (Suc k) = vuln_start ds k + block_height (vulnerabilities (ds ! k))"
  by (simp add: vuln_start_def block_start_Suc)

lemma software_item_cells:
  assumes "k < length ds" "i < length (software (ds ! k))"
  shows "value (cells (software_table ds) (software_start ds k + i) 1) =
      (if i = 0 then scalar_of (Device.name (ds ! k)) else SNone)"
    and "value (cells (software_table ds) (software_start ds k + i) 2) =
      scalar_of (Software.name (software (ds ! k) ! i))"
    and "value (cells (software_table ds) (software_start ds k + i) 3) =
      scalar_of (Software.version (software (ds ! k) ! i))"
    and "value (cells (software_table ds) (software_start ds k + i) 4) =
      scalar_of (Software.vendor (software (ds ! k) ! i))"
proof -
  from assms(2) have ne: "software (ds ! k) \<noteq> []" by auto
  then have h: "i < block_height (software (ds ! k))"
    using assms(2) by (simp add: block_height_def)
  have b: "software_block (ds ! k) ! i =
     [if i = 0 then scalar_of (Device.name (ds ! k)) else SStr [],
      scalar_of (Software.name (software (ds ! k) ! i)), scalar_of (Software.version (software (ds ! k) ! i)),
      scalar_of (Software.vendor (software (ds ! k) ! i))]"
    using ne assms(2) by (simp add: software_block_def software_values_nth)
  have l: "length (software_block (ds ! k)) = length (software (ds ! k))"
    using ne by (simp add: block_height_def)
  have c: "cells (software_table ds) (software_start ds k + i) c =
      block_cell 4 (software_block (ds ! k)) i c blank_cell" for c
    by (rule software_table_cell [OF assms(1) h])
  show "value (cells (software_table ds) (software_start ds k + i) 1) =
      (if i = 0 then scalar_of (Device.name (ds ! k)) else SNone)"
    unfolding c using assms(2) b l
    by (cases "i = 0") (simp_all add: value_block_cell del: length_software_block)
  show "value (cells (software_table ds) (software_start ds k + i) 2) =
      scalar_of (Software.name (software (ds ! k) ! i))"
    unfolding c by (simp add: value_block_cell b)
  show "value (cells (software_table ds) (software_start ds k + i) 3) =
      scalar_of (Software.version (software (ds ! k) ! i))"
    unfolding c by (simp add: value_block_cell b)
  show "value (cells (software_table ds) (software_start ds k + i) 4) =
      scalar_of (Software.vendor (software (ds ! k) ! i))"
    unfolding c by (simp add: value_block_cell b)
qed

lemma software_empty_cells:
  assumes "k < length ds" "software (ds ! k) = []"
  shows "value (cells (software_table ds) (software_start ds k) c) =
      (if c = 1 then scalar_of (Device.name (ds ! k)) else SNone)"
    and "1 \<le> c \<Longrightarrow> c \<le> 4 \<Longrightarrow> border (cells (software_table ds) (software_start ds k) c) = thin_border"
proof -
  from assms(2) have h: "0 < block_height (software (ds ! k))"
    by (simp add: block_height_def)
  have c: "cells (software_table ds) (software_start ds k) c =
      block_cell 4 (software_block (ds ! k)) 0 c blank_cell"
    using software_table_cell [OF assms(1) h, of c] by simp
  show "value (cells (software_table ds) (software_start ds k) c) =
      (if c = 1 then scalar_of (Device.name (ds ! k)) else SNone)"
    using assms(2) by (auto simp: c value_block_cell software_block_def blank_cell_def)
  show "border (cells (software_table ds) (software_start ds k) c) = thin_border"
    if "1 \<le> c" "c \<le> 4"
    using that assms(2) by (simp add: c border_block_cell_single software_block_def)
qed

lemma vuln_item_cells:
  assumes "k < length ds" "i < length (vulnerabilities (ds ! k))"
  shows "value (cells (vuln_table ds) (vuln_start ds k + i) 1) =
      (if i = 0 then scalar_of (Device.name (ds ! k)) else SNone)"
    and "map (\<lambda>c. value (cells (vuln_table ds) (vuln_start ds k + i) c)) [2, 3, 4, 5, 6, 7, 8, 9, 10, 11] =
      [scalar_of (kaspersky_id (vulnerabilities (ds ! k) ! i)),
       scalar_of (product_name (vulnerabilities (ds ! k) ! i)),
       scalar_of (severity (vulnerabilities (ds ! k) ! i)),
       scalar_of (severity_str (vulnerabilities (ds ! k) ! i)),
       joined (cve (vulnerabilities (ds ! k) ! i)),
       scalar_of (yes_no (exploit_exists (vulnerabilities (ds ! k) ! i))),
       scalar_of (yes_no (malware_exists (vulnerabilities (ds ! k) ! i))),
       scalar_of (recommended_major_patch (vulnerabilities (ds ! k) ! i)),
       scalar_of (recommended_minor_patch (vulnerabilities (ds ! k) ! i)),
       scalar_of (description_url (vulnerabilities (ds ! k) ! i))]"
proof -
  from assms(2) have ne: "vulnerabilities (ds ! k) \<noteq> []" by auto
  then have h: "i < block_height (vulnerabilities (ds ! k))"
    using assms(2) by (simp add: block_height_def)
  have b: "vuln_block (ds ! k) ! i =
     [if i = 0 then scalar_of (Device.name (ds ! k)) else SStr [],
      scalar_of (kaspersky_id (vulnerabilities (ds ! k) ! i)),
      scalar_of (product_name (vulnerabilities (ds ! k) ! i)),
      scalar_of (severity (vulnerabilities (ds ! k) ! i)),
      scalar_of (severity_str (vulnerabilities (ds ! k) ! i)),
      joined (cve (vulnerabilities (ds ! k) ! i)),
      scalar_of (yes_no (exploit_exists (vulnerabilities (ds ! k) ! i))),
      scalar_of (yes_no (malware_exists (vulnerabilities (ds ! k) ! i))),
      scalar_of (recommended_major_patch (vulnerabilities (ds ! k) ! i)),
      scalar_of (recommended_minor_patch (vulnerabilities (ds ! k) ! i)),
      scalar_of (description_url (vulnerabilities (ds ! k) ! i))]"
    using ne assms(2) by (simp add: vuln_block_def vuln_values_nth)
  have l: "length (vuln_block (ds ! k)) = length (vulnerabilities (ds ! k))"
    using ne by (simp add: block_height_def)
  have c: "cells (vuln_table ds) (vuln_start ds k + i) c =
      block_cell 11 (vuln_block (ds ! k)) i c blank_cell" for c
    by (rule vuln_table_cell [OF assms(1) h])
  show "value (cells (vuln_table ds) (vuln_start ds k + i) 1) =
      (if i = 0 then scalar_of (Device.name (ds ! k)) else SNone)"
    unfolding c using assms(2) b l
    by (cases "i = 0") (simp_all add: value_block_cell del: length_vuln_block)
  show "map (\<lambda>c. value (cells (vuln_table ds) (vuln_start ds k + i) c)) [2, 3, 4, 5, 6, 7, 8, 9, 10, 11] =
      [scalar_of (kaspersky_id (vulnerabilities (ds ! k) ! i)),
       scalar_of (product_name (vulnerabilities (ds ! k) ! i)),
       scalar_of (severity (vulnerabilities (ds ! k) ! i)),
       scalar_of (severity_str (vulnerabilities (ds ! k) ! i)),
       joined (cve (vulnerabilities (ds ! k) ! i)),
       scalar_of (yes_no (exploit_exists (vulnerabilities (ds ! k) ! i))),
       scalar_of (yes_no (malware_exists (vulnerabilities (ds ! k) ! i))),
       scalar_of (recommended_major_patch (vulnerabilities (ds ! k) ! i)),
       scalar_of (recommended_minor_patch (vulnerabilities (ds ! k) ! i)),
       scalar_of (description_url (vulnerabilities (ds ! k) ! i))]"
    unfolding c by (simp add: value_block_cell b)
qed

lemma vuln_empty_cells:
  assumes "k < length ds" "vulnerabilities (ds ! k) = []"
  shows "value (cells (vuln_table ds) (vuln_start ds k) c) =
      (if c = 1 then scalar_of (Device.name (ds ! k)) else SNone)"
    and "1 \<le> c \<Longrightarrow> c \<le> 11 \<Longrightarrow> border (cells (vuln_table ds) (vuln_start ds k) c) = thin_border"
proof -
  from assms(2) have h: "0 < block_height (vulnerabilities (ds ! k))"
    by (simp add: block_height_def)
  have c: "cells (vuln_table ds) (vuln_start ds k) c =
      block_cell 11 (vuln_block (ds ! k)) 0 c blank_cell"
    using vuln_table_cell [OF assms(1) h, of c] by simp
  show "value (cells (vuln_table ds) (vuln_start ds k) c) =
      (if c = 1 then scalar_of (Device.name (ds ! k)) else SNone)"
    using assms(2) by (auto simp: c value_block_cell vuln_block_def blank_cell_def)
  show "border (cells (vuln_table ds) (vuln_start ds k) c) = thin_border"
    if "1 \<le> c" "c \<le> 11"
    using that assms(2) by (simp add: c border_block_cell_single vuln_block_def)
qed

text \<open>Merged ranges of a grouped sheet, in terms of the item lists.\<close>

lemma block_height_gt1: "1 < block_height xs \<longleftrightarrow> 1 < length xs"
  by (cases xs) (simp_all add: block_height_def)

lemma block_height_last: "xs \<noteq> [] \<Longrightarrow> block_height xs = length xs"
  by (simp add: block_height_def)

lemma grouped_merged_iff:
  assumes "k < length ds" "f (ds ! k) \<noteq> []"
  shows "(block_start (map (\<lambda>d. block_height (f d)) ds) k, 1,
          block_start (map (\<lambda>d. block_height (f d)) ds) k + length (f (ds ! k)) - 1, 1)
           \<in> set (merges 2 (map (\<lambda>d. block_height (f d)) ds)) \<longleftrightarrow> 1 < length (f (ds ! k))"
  using merges_member_iff [OF heights_ge, of k f ds] assms
  by (simp add: block_height_last block_height_gt1)

lemma grouped_merged_block:
  assumes "rng \<in> set (merges 2 (map (\<lambda>d. block_height (f d)) ds))"
  shows "\<exists>k<length ds. 1 < length (f (ds ! k)) \<and>
     rng = (block_start (map (\<lambda>d. block_height (f d)) ds) k, 1,
            block_start (map (\<lambda>d. block_height (f d)) ds) k + length (f (ds ! k)) - 1, 1)"
proof -
  from assms obtain j where j: "j < length (map (\<lambda>d. block_height (f d)) ds)"
    "1 < map (\<lambda>d. block_height (f d)) ds ! j"
    and rng: "rng = (block_start (map (\<lambda>d. block_height (f d)) ds) j, 1,
       block_start (map (\<lambda>d. block_height (f d)) ds) j + map (\<lambda>d. block_height (f d)) ds ! j - 1, 1)"
    by (rule merges_memberD)
  from j have "j < length ds" "1 < length (f (ds ! j))" "f (ds ! j) \<noteq> []"
    by (auto simp: block_height_def split: if_splits)
  with rng show ?thesis
    by (auto simp: block_height_last)
qed

lemma grouped_empty_not_covered:
  assumes "k < length ds" "f (ds ! k) = []" "rng \<in> set (merges 2 (map (\<lambda>d. block_height (f d)) ds))"
  shows "\<not> covers rng (block_start (map (\<lambda>d. block_height (f d)) ds) k)"
  using merges_not_covering [OF heights_ge, of k f ds rng] assms
  by (simp add: block_height_def)

subsection \<open>Blocks of the Software and Vulnerability sheets\<close>

text \<open>
  C1. For valid devices the workbook is built, and in the Software sheet a device with
  \<open>N \<ge> 1\<close> software items takes exactly the \<open>N\<close> rows from the start of its block (the next
  block starts \<open>N\<close> rows further, and the last block ends the sheet): row \<open>i\<close> of the block
  carries item \<open>i\<close>, the first row has the device name in column 1, column 1 of the rows
  below it is blank, and the range of column 1 over exactly these \<open>N\<close> rows is among the
  merged ranges if and only if \<open>N > 1\<close>. Every merged range of the sheet is such a range of
  one device. The same holds in the Vulnerability sheet for the vulnerabilities.
\<close>

theorem grouped_blocks:
  assumes "list_all valid_Device devices"
  shows "\<exists>wb. build_workbook devices = Inr wb \<and>
     Suc (max_row (Software_sheet wb)) = software_start devices (length devices) \<and>
     (\<forall>k<length devices. software (devices ! k) \<noteq> [] \<longrightarrow>
        software_start devices (Suc k) = software_start devices k + length (software (devices ! k)) \<and>
        Scalar (value (cells (Software_sheet wb) (software_start devices k) 1)) = Device.name (devices ! k) \<and>
        (\<forall>i<length (software (devices ! k)).
           (0 < i \<longrightarrow> value (cells (Software_sheet wb) (software_start devices k + i) 1) = SNone) \<and>
           Scalar (value (cells (Software_sheet wb) (software_start devices k + i) 2)) =
             Software.name (software (devices ! k) ! i)) \<and>
        ((software_start devices k, 1, software_start devices k + length (software (devices ! k)) - 1, 1)
            \<in> set (merged_cells (Software_sheet wb)) \<longleftrightarrow> 1 < length (software (devices ! k)))) \<and>
     (\<forall>rng\<in>set (merged_cells (Software_sheet wb)). \<exists>k<length devices.
        1 < length (software (devices ! k)) \<and>
        rng = (software_start devices k, 1, software_start devices k + length (software (devices ! k)) - 1, 1)) \<and>
     Suc (max_row (Vulnerability_sheet wb)) = vuln_start devices (length devices) \<and>
     (\<forall>k<length devices. vulnerabilities (devices ! k) \<noteq> [] \<longrightarrow>
        vuln_start devices (Suc k) = vuln_start devices k + length (vulnerabilities (devices ! k)) \<and>
        Scalar (value (cells (Vulnerability_sheet wb) (vuln_start devices k) 1)) = Device.name (devices ! k) \<and>
        (\<forall>i<length (vulnerabilities (devices ! k)).
           (0 < i \<longrightarrow> value (cells (Vulnerability_sheet wb) (vuln_start devices k + i) 1) = SNone) \<and>
           Scalar (value (cells (Vulnerability_sheet wb) (vuln_start devices k + i) 2)) =
             kaspersky_id (vulnerabilities (devices ! k) ! i)) \<and>
        ((vuln_start devices k, 1, vuln_start devices k + length (vulnerabilities (devices ! k)) - 1, 1)
            \<in> set (merged_cells (Vulnerability_sheet wb)) \<longleftrightarrow> 1 < length (vulnerabilities (devices ! k)))) \<and>
     (\<forall>rng\<in>set (merged_cells (Vulnerability_sheet wb)). \<exists>k<length devices.
        1 < length (vulnerabilities (devices ! k)) \<and>
        rng = (vuln_start devices k, 1, vuln_start devices k + length (vulnerabilities (devices ! k)) - 1, 1))"
proof -
  define wb where "wb = \<lparr>Device_sheet = adjust_sheet (device_table devices),
       Software_sheet = adjust_sheet (software_table devices),
       Vulnerability_sheet = adjust_sheet (vuln_table devices)\<rparr>"
  let ?sw = "Software_sheet wb" and ?vs = "Vulnerability_sheet wb"
  have built: "build_workbook devices = Inr wb"
    unfolding wb_def by (rule build_workbook_eq [OF assms])
  have sw: "cells ?sw = cells (software_table devices)"
    "merged_cells ?sw = merged_cells (software_table devices)"
    "max_row ?sw = max_row (software_table devices)"
    by (simp_all add: wb_def)
  have vs: "cells ?vs = cells (vuln_table devices)"
    "merged_cells ?vs = merged_cells (vuln_table devices)"
    "max_row ?vs = max_row (vuln_table devices)"
    by (simp_all add: wb_def)
  have sw_block: "software_start devices (Suc k) = software_start devices k + length (software (devices ! k)) \<and>
        Scalar (value (cells ?sw (software_start devices k) 1)) = Device.name (devices ! k) \<and>
        (\<forall>i<length (software (devices ! k)).
           (0 < i \<longrightarrow> value (cells ?sw (software_start devices k + i) 1) = SNone) \<and>
           Scalar (value (cells ?sw (software_start devices k + i) 2)) =
             Software.name (software (devices ! k) ! i)) \<and>
        ((software_start devices k, 1, software_start devices k + length (software (devices ! k)) - 1, 1)
            \<in> set (merged_cells ?sw) \<longleftrightarrow> 1 < length (software (devices ! k)))"
    if k: "k < length devices" and ne: "software (devices ! k) \<noteq> []" for k
  proof -
    from assms k have v: "valid_Device (devices ! k)"
      by (rule valid_Device_nth)
    then have n: "ok_str (Device.name (devices ! k))"
      by (simp add: valid_Device_def)
    from ne have pos: "0 < length (software (devices ! k))" by simp
    have items: "0 < i \<longrightarrow> value (cells ?sw (software_start devices k + i) 1) = SNone"
      "Scalar (value (cells ?sw (software_start devices k + i) 2)) = Software.name (software (devices ! k) ! i)"
      if i: "i < length (software (devices ! k))" for i
    proof -
      from v i have "valid_Software (software (devices ! k) ! i)"
        by (simp add: valid_Device_def list_all_length)
      then have "ok_str (Software.name (software (devices ! k) ! i))"
        by (simp add: valid_Software_def)
      then show "Scalar (value (cells ?sw (software_start devices k + i) 2)) = Software.name (software (devices ! k) ! i)"
        unfolding sw by (simp add: software_item_cells(2) [OF k i] ok_str_scalar)
      show "0 < i \<longrightarrow> value (cells ?sw (software_start devices k + i) 1) = SNone"
        unfolding sw using software_item_cells(1) [OF k i] by simp
    qed
    have first: "Scalar (value (cells ?sw (software_start devices k) 1)) = Device.name (devices ! k)"
      unfolding sw using software_item_cells(1) [OF k pos] n by (simp add: ok_str_scalar)
    have start: "software_start devices (Suc k) = software_start devices k + length (software (devices ! k))"
      using ne by (simp add: software_start_Suc [OF k] block_height_last)
    have merged: "(software_start devices k, 1, software_start devices k + length (software (devices ! k)) - 1, 1)
            \<in> set (merged_cells ?sw) \<longleftrightarrow> 1 < length (software (devices ! k))"
      unfolding sw software_table_merged software_start_def
      using k ne by (rule grouped_merged_iff)
    from start first items merged show ?thesis by blast
  qed
  have sw_merged: "\<exists>k<length devices. 1 < length (software (devices ! k)) \<and>
        rng = (software_start devices k, 1, software_start devices k + length (software (devices ! k)) - 1, 1)"
    if "rng \<in> set (merged_cells ?sw)" for rng
    using that unfolding sw software_table_merged software_start_def by (rule grouped_merged_block)
  have vs_block: "vuln_start devices (Suc k) = vuln_start devices k + length (vulnerabilities (devices ! k)) \<and>
        Scalar (value (cells ?vs (vuln_start devices k) 1)) = Device.name (devices ! k) \<and>
        (\<forall>i<length (vulnerabilities (devices ! k)).
           (0 < i \<longrightarrow> value (cells ?vs (vuln_start devices k + i) 1) = SNone) \<and>
           Scalar (value (cells ?vs (vuln_start devices k + i) 2)) =
             kaspersky_id (vulnerabilities (devices ! k) ! i)) \<and>
        ((vuln_start devices k, 1, vuln_start devices k + length (vulnerabilities (devices ! k)) - 1, 1)
            \<in> set (merged_cells ?vs) \<longleftrightarrow> 1 < length (vulnerabilities (devices ! k)))"
    if k: "k < length devices" and ne: "vulnerabilities (devices ! k) \<noteq> []" for k
  proof -
    from assms k have v: "valid_Device (devices ! k)"
      by (rule valid_Device_nth)
    then have n: "ok_str (Device.name (devices ! k))"
      by (simp add: valid_Device_def)
    from ne have pos: "0 < length (vulnerabilities (devices ! k))" by simp
    have items: "0 < i \<longrightarrow> value (cells ?vs (vuln_start devices k + i) 1) = SNone"
      "Scalar (value (cells ?vs (vuln_start devices k + i) 2)) = kaspersky_id (vulnerabilities (devices ! k) ! i)"
      if i: "i < length (vulnerabilities (devices ! k))" for i
    proof -
      from v i have "valid_Vulnerability (vulnerabilities (devices ! k) ! i)"
        by (simp add: valid_Device_def list_all_length)
      then have "ok_str (kaspersky_id (vulnerabilities (devices ! k) ! i))"
        by (simp add: valid_Vulnerability_def)
      then show "Scalar (value (cells ?vs (vuln_start devices k + i) 2)) = kaspersky_id (vulnerabilities (devices ! k) ! i)"
        unfolding vs using vuln_item_cells(2) [OF k i] by (simp add: ok_str_scalar)
      show "0 < i \<longrightarrow> value (cells ?vs (vuln_start devices k + i) 1) = SNone"
        unfolding vs using vuln_item_cells(1) [OF k i] by simp
    qed
    have first: "Scalar (value (cells ?vs (vuln_start devices k) 1)) = Device.name (devices ! k)"
      unfolding vs using vuln_item_cells(1) [OF k pos] n by (simp add: ok_str_scalar)
    have start: "vuln_start devices (Suc k) = vuln_start devices k + length (vulnerabilities (devices ! k))"
      using ne by (simp add: vuln_start_Suc [OF k] block_height_last)
    have merged: "(vuln_start devices k, 1, vuln_start devices k + length (vulnerabilities (devices ! k)) - 1, 1)
            \<in> set (merged_cells ?vs) \<longleftrightarrow> 1 < length (vulnerabilities (devices ! k))"
      unfolding vs vuln_table_merged vuln_start_def
      using k ne by (rule grouped_merged_iff)
    from start first items merged show ?thesis by blast
  qed
  have vs_merged: "\<exists>k<length devices. 1 < length (vulnerabilities (devices ! k)) \<and>
        rng = (vuln_start devices k, 1, vuln_start devices k + length (vulnerabilities (devices ! k)) - 1, 1)"
    if "rng \<in> set (merged_cells ?vs)" for rng
    using that unfolding vs vuln_table_merged vuln_start_def by (rule grouped_merged_block)
  have sw_rows: "Suc (max_row ?sw) = software_start devices (length devices)"
    unfolding sw by (rule software_table_max_row)
  have vs_rows: "Suc (max_row ?vs) = vuln_start devices (length devices)"
    unfolding vs by (rule vuln_table_max_row)
  from built sw_rows sw_block sw_merged vs_rows vs_block vs_merged show ?thesis
    by blast
qed

text \<open>
  At the two example devices: \<open>host1\<close> has no software and one vulnerability, \<open>host2\<close> two
  software items and no vulnerability. The software block of \<open>host2\<close> is rows 3 and 4, merged
  in column 1; the vulnerability block of \<open>host1\<close> is row 2 alone, and nothing is merged there.
\<close>

theorem grouped_blocks_witness:
  "list_all valid_Device example_devices \<and>
   (\<exists>wb. build_workbook example_devices = Inr wb \<and>
      max_row (Software_sheet wb) = 4 \<and>
      value (cells (Software_sheet wb) 3 1) = SStr (str ''host2'') \<and>
      value (cells (Software_sheet wb) 3 2) = SStr (str ''vim'') \<and>
      value (cells (Software_sheet wb) 4 1) = SNone \<and>
      value (cells (Software_sheet wb) 4 2) = SStr (str ''git'') \<and>
      set (merged_cells (Software_sheet wb)) = {(3, 1, 4, 1)} \<and>
      max_row (Vulnerability_sheet wb) = 3 \<and>
      value (cells (Vulnerability_sheet wb) 2 1) = SStr (str ''host1'') \<and>
      value (cells (Vulnerability_sheet wb) 2 2) = SStr (str ''KLA1'') \<and>
      set (merged_cells (Vulnerability_sheet wb)) = {})"
proof -
  have valid: "list_all valid_Device example_devices"
    by (simp add: example_defs valid_defs)
  have starts: "software_start example_devices 0 = 2" "software_start example_devices 1 = 3"
    "software_start example_devices 2 = 5" "vuln_start example_devices 0 = 2"
    "vuln_start example_devices 1 = 3" "vuln_start example_devices 2 = 4"
    by (simp_all add: software_start_def vuln_start_def block_start_def block_height_def example_defs)
  have items: "software (example_devices ! 0) = []"
    "software (example_devices ! 1) = [example_software (str ''vim''), example_software (str ''git'')]"
    "vulnerabilities (example_devices ! 0) = [example_vuln]" "vulnerabilities (example_devices ! 1) = []"
    "Device.name (example_devices ! 0) = Scalar (SStr (str ''host1''))"
    "Device.name (example_devices ! 1) = Scalar (SStr (str ''host2''))"
    "length example_devices = 2"
    by (simp_all add: example_devices_def host1_def host2_def)
  from grouped_blocks [OF valid] obtain wb where
    built: "build_workbook example_devices = Inr wb"
    and sw_rows: "Suc (max_row (Software_sheet wb)) = software_start example_devices (length example_devices)"
    and sw_block: "\<forall>k<length example_devices. software (example_devices ! k) \<noteq> [] \<longrightarrow>
        software_start example_devices (Suc k) = software_start example_devices k + length (software (example_devices ! k)) \<and>
        Scalar (value (cells (Software_sheet wb) (software_start example_devices k) 1)) = Device.name (example_devices ! k) \<and>
        (\<forall>i<length (software (example_devices ! k)).
           (0 < i \<longrightarrow> value (cells (Software_sheet wb) (software_start example_devices k + i) 1) = SNone) \<and>
           Scalar (value (cells (Software_sheet wb) (software_start example_devices k + i) 2)) =
             Software.name (software (example_devices ! k) ! i)) \<and>
        ((software_start example_devices k, 1, software_start example_devices k + length (software (example_devices ! k)) - 1, 1)
            \<in> set (merged_cells (Software_sheet wb)) \<longleftrightarrow> 1 < length (software (example_devices ! k)))"
    and sw_merged: "\<forall>rng\<in>set (merged_cells (Software_sheet wb)). \<exists>k<length example_devices.
        1 < length (software (example_devices ! k)) \<and>
        rng = (software_start example_devices k, 1, software_start example_devices k + length (software (example_devices ! k)) - 1, 1)"
    and vs_rows: "Suc (max_row (Vulnerability_sheet wb)) = vuln_start example_devices (length example_devices)"
    and vs_block: "\<forall>k<length example_devices. vulnerabilities (example_devices ! k) \<noteq> [] \<longrightarrow>
        vuln_start example_devices (Suc k) = vuln_start example_devices k + length (vulnerabilities (example_devices ! k)) \<and>
        Scalar (value (cells (Vulnerability_sheet wb) (vuln_start example_devices k) 1)) = Device.name (example_devices ! k) \<and>
        (\<forall>i<length (vulnerabilities (example_devices ! k)).
           (0 < i \<longrightarrow> value (cells (Vulnerability_sheet wb) (vuln_start example_devices k + i) 1) = SNone) \<and>
           Scalar (value (cells (Vulnerability_sheet wb) (vuln_start example_devices k + i) 2)) =
             kaspersky_id (vulnerabilities (example_devices ! k) ! i)) \<and>
        ((vuln_start example_devices k, 1, vuln_start example_devices k + length (vulnerabilities (example_devices ! k)) - 1, 1)
            \<in> set (merged_cells (Vulnerability_sheet wb)) \<longleftrightarrow> 1 < length (vulnerabilities (example_devices ! k)))"
    and vs_merged: "\<forall>rng\<in>set (merged_cells (Vulnerability_sheet wb)). \<exists>k<length example_devices.
        1 < length (vulnerabilities (example_devices ! k)) \<and>
        rng = (vuln_start example_devices k, 1, vuln_start example_devices k + length (vulnerabilities (example_devices ! k)) - 1, 1)"
    by blast
  have sw: "value (cells (Software_sheet wb) 3 1) = SStr (str ''host2'') \<and>
      value (cells (Software_sheet wb) 3 2) = SStr (str ''vim'') \<and>
      value (cells (Software_sheet wb) 4 1) = SNone \<and>
      value (cells (Software_sheet wb) 4 2) = SStr (str ''git'') \<and>
      (3, 1, 4, 1) \<in> set (merged_cells (Software_sheet wb))"
    using sw_block [rule_format, of 1] unfolding items starts
    by (simp add: example_software_def All_less_Suc)
  have sw_only: "rng = (3, 1, 4, 1)" if "rng \<in> set (merged_cells (Software_sheet wb))" for rng
  proof -
    from sw_merged [rule_format, OF that] obtain k where k: "k < length example_devices"
      "1 < length (software (example_devices ! k))"
      "rng = (software_start example_devices k, 1,
         software_start example_devices k + length (software (example_devices ! k)) - 1, 1)"
      by blast
    from k(1) have "k = 0 \<or> k = 1" unfolding items by linarith
    then show ?thesis
    proof
      assume k0: "k = 0"
      from k(2) [unfolded k0 items] show ?thesis by simp
    next
      assume k1: "k = 1"
      from k(3) [unfolded k1 items starts] show ?thesis by simp
    qed
  qed
  have vs: "value (cells (Vulnerability_sheet wb) 2 1) = SStr (str ''host1'') \<and>
      value (cells (Vulnerability_sheet wb) 2 2) = SStr (str ''KLA1'')"
    using vs_block [rule_format, of 0] unfolding items starts
    by (simp add: example_vuln_def All_less_Suc)
  have vs_none: "rng \<notin> set (merged_cells (Vulnerability_sheet wb))" for rng
  proof
    assume "rng \<in> set (merged_cells (Vulnerability_sheet wb))"
    from vs_merged [rule_format, OF this] obtain k where k: "k < length example_devices"
      "1 < length (vulnerabilities (example_devices ! k))"
      by blast
    from k(1) have "k = 0 \<or> k = 1" unfolding items by linarith
    then show False
    proof
      assume k0: "k = 0"
      from k(2) [unfolded k0 items] show False by simp
    next
      assume k1: "k = 1"
      from k(2) [unfolded k1 items] show False by simp
    qed
  qed
  have sw_set: "set (merged_cells (Software_sheet wb)) = {(3, 1, 4, 1)}"
  proof (rule set_eqI)
    fix rng
    from sw sw_only [of rng] show "rng \<in> set (merged_cells (Software_sheet wb)) \<longleftrightarrow> rng \<in> {(3, 1, 4, 1)}"
      by (simp only: singleton_iff) blast
  qed
  have vs_set: "set (merged_cells (Vulnerability_sheet wb)) = {}"
  proof (rule equals0I)
    fix rng
    assume "rng \<in> set (merged_cells (Vulnerability_sheet wb))"
    with vs_none [of rng] show False by simp
  qed
  from sw_rows vs_rows have rows: "max_row (Software_sheet wb) = 4" "max_row (Vulnerability_sheet wb) = 3"
    unfolding items starts by simp_all
  from valid built rows sw sw_set vs vs_set show ?thesis
    by blast
qed

subsection \<open>Devices without software or without vulnerabilities\<close>

text \<open>
  C2. For valid devices the workbook is built, and in the Software sheet a device with an
  empty software list takes exactly one row (the next block starts one row further): the row
  has the device name in column 1 and no value in any other column, each of its cells in
  columns 1 to 4 has a thin border on all four sides, and no merged range of the sheet covers
  the row. The same holds in the Vulnerability sheet, with columns 1 to 11, for a device
  with an empty vulnerability list.
\<close>

theorem empty_list_rows:
  assumes "list_all valid_Device devices"
  shows "\<exists>wb. build_workbook devices = Inr wb \<and>
     (\<forall>k<length devices. software (devices ! k) = [] \<longrightarrow>
        software_start devices (Suc k) = software_start devices k + 1 \<and>
        Scalar (value (cells (Software_sheet wb) (software_start devices k) 1)) = Device.name (devices ! k) \<and>
        (\<forall>c. c \<noteq> 1 \<longrightarrow> value (cells (Software_sheet wb) (software_start devices k) c) = SNone) \<and>
        (\<forall>c. 1 \<le> c \<and> c \<le> 4 \<longrightarrow> border (cells (Software_sheet wb) (software_start devices k) c) =
           \<lparr>left_side = thin, right_side = thin, top_side = thin, bottom_side = thin\<rparr>) \<and>
        (\<forall>rng\<in>set (merged_cells (Software_sheet wb)). \<not> covers rng (software_start devices k))) \<and>
     (\<forall>k<length devices. vulnerabilities (devices ! k) = [] \<longrightarrow>
        vuln_start devices (Suc k) = vuln_start devices k + 1 \<and>
        Scalar (value (cells (Vulnerability_sheet wb) (vuln_start devices k) 1)) = Device.name (devices ! k) \<and>
        (\<forall>c. c \<noteq> 1 \<longrightarrow> value (cells (Vulnerability_sheet wb) (vuln_start devices k) c) = SNone) \<and>
        (\<forall>c. 1 \<le> c \<and> c \<le> 11 \<longrightarrow> border (cells (Vulnerability_sheet wb) (vuln_start devices k) c) =
           \<lparr>left_side = thin, right_side = thin, top_side = thin, bottom_side = thin\<rparr>) \<and>
        (\<forall>rng\<in>set (merged_cells (Vulnerability_sheet wb)). \<not> covers rng (vuln_start devices k)))"
proof -
  define wb where "wb = \<lparr>Device_sheet = adjust_sheet (device_table devices),
       Software_sheet = adjust_sheet (software_table devices),
       Vulnerability_sheet = adjust_sheet (vuln_table devices)\<rparr>"
  let ?sw = "Software_sheet wb" and ?vs = "Vulnerability_sheet wb"
  have built: "build_workbook devices = Inr wb"
    unfolding wb_def by (rule build_workbook_eq [OF assms])
  have sw: "cells ?sw = cells (software_table devices)"
    "merged_cells ?sw = merged_cells (software_table devices)"
    by (simp_all add: wb_def)
  have vs: "cells ?vs = cells (vuln_table devices)"
    "merged_cells ?vs = merged_cells (vuln_table devices)"
    by (simp_all add: wb_def)
  have sw_row: "software_start devices (Suc k) = software_start devices k + 1 \<and>
        Scalar (value (cells ?sw (software_start devices k) 1)) = Device.name (devices ! k) \<and>
        (\<forall>c. c \<noteq> 1 \<longrightarrow> value (cells ?sw (software_start devices k) c) = SNone) \<and>
        (\<forall>c. 1 \<le> c \<and> c \<le> 4 \<longrightarrow> border (cells ?sw (software_start devices k) c) =
           \<lparr>left_side = thin, right_side = thin, top_side = thin, bottom_side = thin\<rparr>) \<and>
        (\<forall>rng\<in>set (merged_cells ?sw). \<not> covers rng (software_start devices k))"
    if k: "k < length devices" and e: "software (devices ! k) = []" for k
  proof -
    from assms k have "valid_Device (devices ! k)"
      by (rule valid_Device_nth)
    then have n: "ok_str (Device.name (devices ! k))"
      by (simp add: valid_Device_def)
    have start: "software_start devices (Suc k) = software_start devices k + 1"
      using e by (simp add: software_start_Suc [OF k] block_height_def)
    have name: "Scalar (value (cells ?sw (software_start devices k) 1)) = Device.name (devices ! k)"
      unfolding sw using software_empty_cells(1) [OF k e, of 1] n by (simp add: ok_str_scalar)
    have blank: "value (cells ?sw (software_start devices k) c) = SNone" if "c \<noteq> 1" for c
      unfolding sw using software_empty_cells(1) [OF k e, of c] that by simp
    have borders: "border (cells ?sw (software_start devices k) c) =
           \<lparr>left_side = thin, right_side = thin, top_side = thin, bottom_side = thin\<rparr>"
      if "1 \<le> c \<and> c \<le> 4" for c
      unfolding sw using software_empty_cells(2) [OF k e, of c] that by (simp add: thin_border_def)
    have free: "\<not> covers rng (software_start devices k)" if "rng \<in> set (merged_cells ?sw)" for rng
      using that unfolding sw software_table_merged software_start_def
      by (rule grouped_empty_not_covered [where f = software, OF k e])
    from start name blank borders free show ?thesis by blast
  qed
  have vs_row: "vuln_start devices (Suc k) = vuln_start devices k + 1 \<and>
        Scalar (value (cells ?vs (vuln_start devices k) 1)) = Device.name (devices ! k) \<and>
        (\<forall>c. c \<noteq> 1 \<longrightarrow> value (cells ?vs (vuln_start devices k) c) = SNone) \<and>
        (\<forall>c. 1 \<le> c \<and> c \<le> 11 \<longrightarrow> border (cells ?vs (vuln_start devices k) c) =
           \<lparr>left_side = thin, right_side = thin, top_side = thin, bottom_side = thin\<rparr>) \<and>
        (\<forall>rng\<in>set (merged_cells ?vs). \<not> covers rng (vuln_start devices k))"
    if k: "k < length devices" and e: "vulnerabilities (devices ! k) = []" for k
  proof -
    from assms k have "valid_Device (devices ! k)"
      by (rule valid_Device_nth)
    then have n: "ok_str (Device.name (devices ! k))"
      by (simp add: valid_Device_def)
    have start: "vuln_start devices (Suc k) = vuln_start devices k + 1"
      using e by (simp add: vuln_start_Suc [OF k] block_height_def)
    have name: "Scalar (value (cells ?vs (vuln_start devices k) 1)) = Device.name (devices ! k)"
      unfolding vs using vuln_empty_cells(1) [OF k e, of 1] n by (simp add: ok_str_scalar)
    have blank: "value (cells ?vs (vuln_start devices k) c) = SNone" if "c \<noteq> 1" for c
      unfolding vs using vuln_empty_cells(1) [OF k e, of c] that by simp
    have borders: "border (cells ?vs (vuln_start devices k) c) =
           \<lparr>left_side = thin, right_side = thin, top_side = thin, bottom_side = thin\<rparr>"
      if "1 \<le> c \<and> c \<le> 11" for c
      unfolding vs using vuln_empty_cells(2) [OF k e, of c] that by (simp add: thin_border_def)
    have free: "\<not> covers rng (vuln_start devices k)" if "rng \<in> set (merged_cells ?vs)" for rng
      using that unfolding vs vuln_table_merged vuln_start_def
      by (rule grouped_empty_not_covered [where f = vulnerabilities, OF k e])
    from start name blank borders free show ?thesis by blast
  qed
  from built sw_row vs_row show ?thesis
    by blast
qed

text \<open>
  At the two example devices: \<open>host1\<close> has no software and takes row 2 of the Software
  sheet, \<open>host2\<close> has no vulnerability and takes row 3 of the Vulnerability sheet.
\<close>

theorem empty_list_rows_witness:
  "list_all valid_Device example_devices \<and>
   (\<exists>wb. build_workbook example_devices = Inr wb \<and>
      map (\<lambda>c. value (cells (Software_sheet wb) 2 c)) [1, 2, 3, 4] =
        [SStr (str ''host1''), SNone, SNone, SNone] \<and>
      map (\<lambda>c. border (cells (Software_sheet wb) 2 c)) [1, 2, 3, 4] =
        replicate 4 \<lparr>left_side = thin, right_side = thin, top_side = thin, bottom_side = thin\<rparr> \<and>
      list_all (\<lambda>rng. \<not> covers rng 2) (merged_cells (Software_sheet wb)) \<and>
      map (\<lambda>c. value (cells (Vulnerability_sheet wb) 3 c)) [1, 2, 3, 4, 5, 6, 7, 8, 9, 10, 11] =
        [SStr (str ''host2''), SNone, SNone, SNone, SNone, SNone, SNone, SNone, SNone, SNone, SNone] \<and>
      map (\<lambda>c. border (cells (Vulnerability_sheet wb) 3 c)) [1, 2, 3, 4, 5, 6, 7, 8, 9, 10, 11] =
        replicate 11 \<lparr>left_side = thin, right_side = thin, top_side = thin, bottom_side = thin\<rparr> \<and>
      list_all (\<lambda>rng. \<not> covers rng 3) (merged_cells (Vulnerability_sheet wb)))"
proof -
  have valid: "list_all valid_Device example_devices"
    by (simp add: example_defs valid_defs)
  have starts: "software_start example_devices 0 = 2" "vuln_start example_devices 1 = 3"
    by (simp_all add: software_start_def vuln_start_def block_start_def block_height_def example_defs)
  have items: "software (example_devices ! 0) = []" "vulnerabilities (example_devices ! 1) = []"
    "Device.name (example_devices ! 0) = Scalar (SStr (str ''host1''))"
    "Device.name (example_devices ! 1) = Scalar (SStr (str ''host2''))"
    by (simp_all add: example_devices_def host1_def host2_def)
  have len: "0 < length example_devices" "1 < length example_devices"
    by (simp_all add: example_devices_def)
  from empty_list_rows [OF valid] obtain wb where
    built: "build_workbook example_devices = Inr wb"
    and sw_rows: "(\<forall>k<length example_devices. software (example_devices ! k) = [] \<longrightarrow>
        software_start example_devices (Suc k) = software_start example_devices k + 1 \<and>
        Scalar (value (cells (Software_sheet wb) (software_start example_devices k) 1)) = Device.name (example_devices ! k) \<and>
        (\<forall>c. c \<noteq> 1 \<longrightarrow> value (cells (Software_sheet wb) (software_start example_devices k) c) = SNone) \<and>
        (\<forall>c. 1 \<le> c \<and> c \<le> 4 \<longrightarrow> border (cells (Software_sheet wb) (software_start example_devices k) c) =
           \<lparr>left_side = thin, right_side = thin, top_side = thin, bottom_side = thin\<rparr>) \<and>
        (\<forall>rng\<in>set (merged_cells (Software_sheet wb)). \<not> covers rng (software_start example_devices k)))"
    and vs_rows: "(\<forall>k<length example_devices. vulnerabilities (example_devices ! k) = [] \<longrightarrow>
        vuln_start example_devices (Suc k) = vuln_start example_devices k + 1 \<and>
        Scalar (value (cells (Vulnerability_sheet wb) (vuln_start example_devices k) 1)) = Device.name (example_devices ! k) \<and>
        (\<forall>c. c \<noteq> 1 \<longrightarrow> value (cells (Vulnerability_sheet wb) (vuln_start example_devices k) c) = SNone) \<and>
        (\<forall>c. 1 \<le> c \<and> c \<le> 11 \<longrightarrow> border (cells (Vulnerability_sheet wb) (vuln_start example_devices k) c) =
           \<lparr>left_side = thin, right_side = thin, top_side = thin, bottom_side = thin\<rparr>) \<and>
        (\<forall>rng\<in>set (merged_cells (Vulnerability_sheet wb)). \<not> covers rng (vuln_start example_devices k)))"
    by blast
  from sw_rows [rule_format, OF len(1) items(1), unfolded items starts]
  have sw: "value (cells (Software_sheet wb) 2 1) = SStr (str ''host1'')"
    "\<And>c. c \<noteq> 1 \<Longrightarrow> value (cells (Software_sheet wb) 2 c) = SNone"
    "\<And>c. 1 \<le> c \<and> c \<le> 4 \<Longrightarrow> border (cells (Software_sheet wb) 2 c) =
           \<lparr>left_side = thin, right_side = thin, top_side = thin, bottom_side = thin\<rparr>"
    "\<And>rng. rng \<in> set (merged_cells (Software_sheet wb)) \<Longrightarrow> \<not> covers rng 2"
    by simp_all
  from vs_rows [rule_format, OF len(2) items(2), unfolded items starts]
  have vs: "value (cells (Vulnerability_sheet wb) 3 1) = SStr (str ''host2'')"
    "\<And>c. c \<noteq> 1 \<Longrightarrow> value (cells (Vulnerability_sheet wb) 3 c) = SNone"
    "\<And>c. 1 \<le> c \<and> c \<le> 11 \<Longrightarrow> border (cells (Vulnerability_sheet wb) 3 c) =
           \<lparr>left_side = thin, right_side = thin, top_side = thin, bottom_side = thin\<rparr>"
    "\<And>rng. rng \<in> set (merged_cells (Vulnerability_sheet wb)) \<Longrightarrow> \<not> covers rng 3"
    by simp_all
  have sw_cells: "map (\<lambda>c. value (cells (Software_sheet wb) 2 c)) [1, 2, 3, 4] =
        [SStr (str ''host1''), SNone, SNone, SNone]"
    "map (\<lambda>c. border (cells (Software_sheet wb) 2 c)) [1, 2, 3, 4] =
        replicate 4 \<lparr>left_side = thin, right_side = thin, top_side = thin, bottom_side = thin\<rparr>"
    "list_all (\<lambda>rng. \<not> covers rng 2) (merged_cells (Software_sheet wb))"
    using sw by (simp_all add: list_all_iff numeral_eq_Suc)
  have vs_cells: "map (\<lambda>c. value (cells (Vulnerability_sheet wb) 3 c)) [1, 2, 3, 4, 5, 6, 7, 8, 9, 10, 11] =
        [SStr (str ''host2''), SNone, SNone, SNone, SNone, SNone, SNone, SNone, SNone, SNone, SNone]"
    "map (\<lambda>c. border (cells (Vulnerability_sheet wb) 3 c)) [1, 2, 3, 4, 5, 6, 7, 8, 9, 10, 11] =
        replicate 11 \<lparr>left_side = thin, right_side = thin, top_side = thin, bottom_side = thin\<rparr>"
    "list_all (\<lambda>rng. \<not> covers rng 3) (merged_cells (Vulnerability_sheet wb))"
    using vs by (simp_all add: list_all_iff numeral_eq_Suc)
  show ?thesis
    by (rule conjI [OF valid exI [of _ wb]]) (simp only: built sw_cells vs_cells simp_thms)
qed

subsection \<open>The cells against the records\<close>

lemma yes_no_bool:
  "is_bool v \<Longrightarrow> scalar_of (yes_no v) = SStr (if v = Scalar (SBool True) then str ''Yes'' else str ''No'')"
  by (auto simp: is_bool_conv yes_no_def scalar_of_def)

lemma device_name_software_table:
  assumes "k < length ds"
  shows "value (cells (software_table ds) (software_start ds k) 1) = scalar_of (Device.name (ds ! k))"
proof (cases "software (ds ! k) = []")
  case True
  from software_empty_cells(1) [OF assms True, of 1] show ?thesis by simp
next
  case False
  then have "0 < length (software (ds ! k))" by simp
  from software_item_cells(1) [OF assms this] show ?thesis by simp
qed

lemma device_name_vuln_table:
  assumes "k < length ds"
  shows "value (cells (vuln_table ds) (vuln_start ds k) 1) = scalar_of (Device.name (ds ! k))"
proof (cases "vulnerabilities (ds ! k) = []")
  case True
  from vuln_empty_cells(1) [OF assms True, of 1] show ?thesis by simp
next
  case False
  then have "0 < length (vulnerabilities (ds ! k))" by simp
  from vuln_item_cells(1) [OF assms this] show ?thesis by simp
qed

text \<open>
  C4. For valid devices the workbook is built, and for every device: its row of the Device
  sheet holds the name, the owner, the OS name and the OS version as they are in the record,
  and the FQDNs, the IP addresses and the MAC addresses joined with \<open>", "\<close>; the row of each of
  its software items holds the item's name, version and vendor as they are in the record; the
  row of each of its vulnerabilities holds the Kaspersky id, the product name, the severity,
  the severity label, the two recommended patches and the description URL as they are in the
  record, the CVE ids joined with \<open>", "\<close>, and for each of the two flags the string \<open>Yes\<close> when
  the flag is true and \<open>No\<close> when it is false. The first row of the device on the Software
  and on the Vulnerability sheet holds the device name.
\<close>

theorem round_trip:
  assumes "list_all valid_Device devices"
  shows "\<exists>wb. build_workbook devices = Inr wb \<and>
     (\<forall>k<length devices.
        Scalar (value (cells (Device_sheet wb) (k + 2) 1)) = Device.name (devices ! k) \<and>
        value (cells (Device_sheet wb) (k + 2) 2) = SStr (comma_joined (strs_of (fqdn (devices ! k)))) \<and>
        value (cells (Device_sheet wb) (k + 2) 3) = SStr (comma_joined (strs_of (ip_addresses (devices ! k)))) \<and>
        value (cells (Device_sheet wb) (k + 2) 4) = SStr (comma_joined (strs_of (mac_addresses (devices ! k)))) \<and>
        Scalar (value (cells (Device_sheet wb) (k + 2) 5)) = owner (devices ! k) \<and>
        Scalar (value (cells (Device_sheet wb) (k + 2) 6)) = OS.name (os (devices ! k)) \<and>
        Scalar (value (cells (Device_sheet wb) (k + 2) 7)) = OS.version (os (devices ! k)) \<and>
        Scalar (value (cells (Software_sheet wb) (software_start devices k) 1)) = Device.name (devices ! k) \<and>
        (\<forall>i<length (software (devices ! k)).
           Scalar (value (cells (Software_sheet wb) (software_start devices k + i) 2)) = Software.name (software (devices ! k) ! i) \<and>
           Scalar (value (cells (Software_sheet wb) (software_start devices k + i) 3)) = Software.version (software (devices ! k) ! i) \<and>
           Scalar (value (cells (Software_sheet wb) (software_start devices k + i) 4)) = Software.vendor (software (devices ! k) ! i)) \<and>
        Scalar (value (cells (Vulnerability_sheet wb) (vuln_start devices k) 1)) = Device.name (devices ! k) \<and>
        (\<forall>i<length (vulnerabilities (devices ! k)).
           Scalar (value (cells (Vulnerability_sheet wb) (vuln_start devices k + i) 2)) = kaspersky_id (vulnerabilities (devices ! k) ! i) \<and>
           Scalar (value (cells (Vulnerability_sheet wb) (vuln_start devices k + i) 3)) = product_name (vulnerabilities (devices ! k) ! i) \<and>
           Scalar (value (cells (Vulnerability_sheet wb) (vuln_start devices k + i) 4)) = severity (vulnerabilities (devices ! k) ! i) \<and>
           Scalar (value (cells (Vulnerability_sheet wb) (vuln_start devices k + i) 5)) = severity_str (vulnerabilities (devices ! k) ! i) \<and>
           value (cells (Vulnerability_sheet wb) (vuln_start devices k + i) 6) = SStr (comma_joined (strs_of (cve (vulnerabilities (devices ! k) ! i)))) \<and>
           value (cells (Vulnerability_sheet wb) (vuln_start devices k + i) 7) = SStr (if exploit_exists (vulnerabilities (devices ! k) ! i) = Scalar (SBool True) then str ''Yes'' else str ''No'') \<and>
           value (cells (Vulnerability_sheet wb) (vuln_start devices k + i) 8) = SStr (if malware_exists (vulnerabilities (devices ! k) ! i) = Scalar (SBool True) then str ''Yes'' else str ''No'') \<and>
           Scalar (value (cells (Vulnerability_sheet wb) (vuln_start devices k + i) 9)) = recommended_major_patch (vulnerabilities (devices ! k) ! i) \<and>
           Scalar (value (cells (Vulnerability_sheet wb) (vuln_start devices k + i) 10)) = recommended_minor_patch (vulnerabilities (devices ! k) ! i) \<and>
           Scalar (value (cells (Vulnerability_sheet wb) (vuln_start devices k + i) 11)) = description_url (vulnerabilities (devices ! k) ! i)))"
proof -
  define wb where "wb = \<lparr>Device_sheet = adjust_sheet (device_table devices),
       Software_sheet = adjust_sheet (software_table devices),
       Vulnerability_sheet = adjust_sheet (vuln_table devices)\<rparr>"
  have built: "build_workbook devices = Inr wb"
    unfolding wb_def by (rule build_workbook_eq [OF assms])
  have dv: "cells (Device_sheet wb) = cells (device_table devices)"
    and sw: "cells (Software_sheet wb) = cells (software_table devices)"
    and vs: "cells (Vulnerability_sheet wb) = cells (vuln_table devices)"
    by (simp_all add: wb_def)
  have rows: "Scalar (value (cells (Device_sheet wb) (k + 2) 1)) = Device.name (devices ! k) \<and>
        value (cells (Device_sheet wb) (k + 2) 2) = SStr (comma_joined (strs_of (fqdn (devices ! k)))) \<and>
        value (cells (Device_sheet wb) (k + 2) 3) = SStr (comma_joined (strs_of (ip_addresses (devices ! k)))) \<and>
        value (cells (Device_sheet wb) (k + 2) 4) = SStr (comma_joined (strs_of (mac_addresses (devices ! k)))) \<and>
        Scalar (value (cells (Device_sheet wb) (k + 2) 5)) = owner (devices ! k) \<and>
        Scalar (value (cells (Device_sheet wb) (k + 2) 6)) = OS.name (os (devices ! k)) \<and>
        Scalar (value (cells (Device_sheet wb) (k + 2) 7)) = OS.version (os (devices ! k)) \<and>
        Scalar (value (cells (Software_sheet wb) (software_start devices k) 1)) = Device.name (devices ! k) \<and>
        (\<forall>i<length (software (devices ! k)).
           Scalar (value (cells (Software_sheet wb) (software_start devices k + i) 2)) = Software.name (software (devices ! k) ! i) \<and>
           Scalar (value (cells (Software_sheet wb) (software_start devices k + i) 3)) = Software.version (software (devices ! k) ! i) \<and>
           Scalar (value (cells (Software_sheet wb) (software_start devices k + i) 4)) = Software.vendor (software (devices ! k) ! i)) \<and>
        Scalar (value (cells (Vulnerability_sheet wb) (vuln_start devices k) 1)) = Device.name (devices ! k) \<and>
        (\<forall>i<length (vulnerabilities (devices ! k)).
           Scalar (value (cells (Vulnerability_sheet wb) (vuln_start devices k + i) 2)) = kaspersky_id (vulnerabilities (devices ! k) ! i) \<and>
           Scalar (value (cells (Vulnerability_sheet wb) (vuln_start devices k + i) 3)) = product_name (vulnerabilities (devices ! k) ! i) \<and>
           Scalar (value (cells (Vulnerability_sheet wb) (vuln_start devices k + i) 4)) = severity (vulnerabilities (devices ! k) ! i) \<and>
           Scalar (value (cells (Vulnerability_sheet wb) (vuln_start devices k + i) 5)) = severity_str (vulnerabilities (devices ! k) ! i) \<and>
           value (cells (Vulnerability_sheet wb) (vuln_start devices k + i) 6) = SStr (comma_joined (strs_of (cve (vulnerabilities (devices ! k) ! i)))) \<and>
           value (cells (Vulnerability_sheet wb) (vuln_start devices k + i) 7) = SStr (if exploit_exists (vulnerabilities (devices ! k) ! i) = Scalar (SBool True) then str ''Yes'' else str ''No'') \<and>
           value (cells (Vulnerability_sheet wb) (vuln_start devices k + i) 8) = SStr (if malware_exists (vulnerabilities (devices ! k) ! i) = Scalar (SBool True) then str ''Yes'' else str ''No'') \<and>
           Scalar (value (cells (Vulnerability_sheet wb) (vuln_start devices k + i) 9)) = recommended_major_patch (vulnerabilities (devices ! k) ! i) \<and>
           Scalar (value (cells (Vulnerability_sheet wb) (vuln_start devices k + i) 10)) = recommended_minor_patch (vulnerabilities (devices ! k) ! i) \<and>
           Scalar (value (cells (Vulnerability_sheet wb) (vuln_start devices k + i) 11)) = description_url (vulnerabilities (devices ! k) ! i))"
    if k: "k < length devices" for k
  proof -
    from assms k have v: "valid_Device (devices ! k)"
      by (rule valid_Device_nth)
    then have ok: "ok_str (Device.name (devices ! k))" "ok_str (owner (devices ! k))"
      "ok_str (OS.name (os (devices ! k)))" "ok_str (OS.version (os (devices ! k)))"
      by (simp_all add: valid_Device_def valid_OS_def)
    note cells = device_table_value [OF k, of 1] device_table_value [OF k, of 2]
      device_table_value [OF k, of 3] device_table_value [OF k, of 4] device_table_value [OF k, of 5]
      device_table_value [OF k, of 6] device_table_value [OF k, of 7]
    have device: "Scalar (value (cells (Device_sheet wb) (k + 2) 1)) = Device.name (devices ! k) \<and>
        value (cells (Device_sheet wb) (k + 2) 2) = SStr (comma_joined (strs_of (fqdn (devices ! k)))) \<and>
        value (cells (Device_sheet wb) (k + 2) 3) = SStr (comma_joined (strs_of (ip_addresses (devices ! k)))) \<and>
        value (cells (Device_sheet wb) (k + 2) 4) = SStr (comma_joined (strs_of (mac_addresses (devices ! k)))) \<and>
        Scalar (value (cells (Device_sheet wb) (k + 2) 5)) = owner (devices ! k) \<and>
        Scalar (value (cells (Device_sheet wb) (k + 2) 6)) = OS.name (os (devices ! k)) \<and>
        Scalar (value (cells (Device_sheet wb) (k + 2) 7)) = OS.version (os (devices ! k))"
      unfolding dv using ok cells by (simp add: device_values_def joined_def ok_str_scalar)
    have sw_name: "Scalar (value (cells (Software_sheet wb) (software_start devices k) 1)) = Device.name (devices ! k)"
      unfolding sw device_name_software_table [OF k] using ok(1) by (simp add: ok_str_scalar)
    have vs_name: "Scalar (value (cells (Vulnerability_sheet wb) (vuln_start devices k) 1)) = Device.name (devices ! k)"
      unfolding vs device_name_vuln_table [OF k] using ok(1) by (simp add: ok_str_scalar)
    have sw_items: "Scalar (value (cells (Software_sheet wb) (software_start devices k + i) 2)) = Software.name (software (devices ! k) ! i) \<and>
           Scalar (value (cells (Software_sheet wb) (software_start devices k + i) 3)) = Software.version (software (devices ! k) ! i) \<and>
           Scalar (value (cells (Software_sheet wb) (software_start devices k + i) 4)) = Software.vendor (software (devices ! k) ! i)"
      if i: "i < length (software (devices ! k))" for i
    proof -
      from v i have "valid_Software (software (devices ! k) ! i)"
        by (simp add: valid_Device_def list_all_length)
      then show ?thesis
        unfolding sw by (simp add: software_item_cells [OF k i] ok_str_scalar valid_Software_def)
    qed
    have vs_items: "Scalar (value (cells (Vulnerability_sheet wb) (vuln_start devices k + i) 2)) = kaspersky_id (vulnerabilities (devices ! k) ! i) \<and>
           Scalar (value (cells (Vulnerability_sheet wb) (vuln_start devices k + i) 3)) = product_name (vulnerabilities (devices ! k) ! i) \<and>
           Scalar (value (cells (Vulnerability_sheet wb) (vuln_start devices k + i) 4)) = severity (vulnerabilities (devices ! k) ! i) \<and>
           Scalar (value (cells (Vulnerability_sheet wb) (vuln_start devices k + i) 5)) = severity_str (vulnerabilities (devices ! k) ! i) \<and>
           value (cells (Vulnerability_sheet wb) (vuln_start devices k + i) 6) = SStr (comma_joined (strs_of (cve (vulnerabilities (devices ! k) ! i)))) \<and>
           value (cells (Vulnerability_sheet wb) (vuln_start devices k + i) 7) = SStr (if exploit_exists (vulnerabilities (devices ! k) ! i) = Scalar (SBool True) then str ''Yes'' else str ''No'') \<and>
           value (cells (Vulnerability_sheet wb) (vuln_start devices k + i) 8) = SStr (if malware_exists (vulnerabilities (devices ! k) ! i) = Scalar (SBool True) then str ''Yes'' else str ''No'') \<and>
           Scalar (value (cells (Vulnerability_sheet wb) (vuln_start devices k + i) 9)) = recommended_major_patch (vulnerabilities (devices ! k) ! i) \<and>
           Scalar (value (cells (Vulnerability_sheet wb) (vuln_start devices k + i) 10)) = recommended_minor_patch (vulnerabilities (devices ! k) ! i) \<and>
           Scalar (value (cells (Vulnerability_sheet wb) (vuln_start devices k + i) 11)) = description_url (vulnerabilities (devices ! k) ! i)"
      if i: "i < length (vulnerabilities (devices ! k))" for i
    proof -
      from v i have "valid_Vulnerability (vulnerabilities (devices ! k) ! i)"
        by (simp add: valid_Device_def list_all_length)
      then show ?thesis
        unfolding vs using vuln_item_cells(2) [OF k i]
        by (simp add: ok_str_scalar is_int_scalar yes_no_bool joined_def valid_Vulnerability_def)
    qed
    from device sw_name sw_items vs_name vs_items show ?thesis
      by blast
  qed
  from built rows show ?thesis
    by blast
qed

text \<open>
  At the two example devices: the FQDNs of \<open>host2\<close> joined, its two software rows, and the
  vulnerability row of \<open>host1\<close>, whose exploit flag is true and whose malware flag is false.
\<close>

theorem round_trip_witness:
  "list_all valid_Device example_devices \<and>
   (\<exists>wb. build_workbook example_devices = Inr wb \<and>
      value (cells (Device_sheet wb) 3 2) = SStr (str ''a.example, b.example'') \<and>
      map (\<lambda>c. value (cells (Software_sheet wb) 3 c)) [1, 2, 3, 4] =
        [SStr (str ''host2''), SStr (str ''vim''), SStr (str ''1.0''), SStr (str ''v'')] \<and>
      map (\<lambda>c. value (cells (Software_sheet wb) 4 c)) [2, 3, 4] =
        [SStr (str ''git''), SStr (str ''1.0''), SStr (str ''v'')] \<and>
      map (\<lambda>c. value (cells (Vulnerability_sheet wb) 2 c)) [1, 2, 3, 4, 5, 6, 7, 8, 9, 10, 11] =
        [SStr (str ''host1''), SStr (str ''KLA1''), SStr (str ''p''), SInt 4, SStr (str ''High''),
         SStr (str ''CVE-2020-1''), SStr (str ''Yes''), SStr (str ''No''), SStr (str ''1''),
         SStr (str ''0''), SStr (str ''u'')])"
proof -
  have valid: "list_all valid_Device example_devices"
    by (simp add: example_defs valid_defs)
  from round_trip [OF valid] obtain wb where
    built: "build_workbook example_devices = Inr wb"
    and rows: "\<And>k. k < length example_devices \<Longrightarrow>
        Scalar (value (cells (Device_sheet wb) (k + 2) 1)) = Device.name (example_devices ! k) \<and>
        value (cells (Device_sheet wb) (k + 2) 2) = SStr (comma_joined (strs_of (fqdn (example_devices ! k)))) \<and>
        value (cells (Device_sheet wb) (k + 2) 3) = SStr (comma_joined (strs_of (ip_addresses (example_devices ! k)))) \<and>
        value (cells (Device_sheet wb) (k + 2) 4) = SStr (comma_joined (strs_of (mac_addresses (example_devices ! k)))) \<and>
        Scalar (value (cells (Device_sheet wb) (k + 2) 5)) = owner (example_devices ! k) \<and>
        Scalar (value (cells (Device_sheet wb) (k + 2) 6)) = OS.name (os (example_devices ! k)) \<and>
        Scalar (value (cells (Device_sheet wb) (k + 2) 7)) = OS.version (os (example_devices ! k)) \<and>
        Scalar (value (cells (Software_sheet wb) (software_start example_devices k) 1)) = Device.name (example_devices ! k) \<and>
        (\<forall>i<length (software (example_devices ! k)).
           Scalar (value (cells (Software_sheet wb) (software_start example_devices k + i) 2)) = Software.name (software (example_devices ! k) ! i) \<and>
           Scalar (value (cells (Software_sheet wb) (software_start example_devices k + i) 3)) = Software.version (software (example_devices ! k) ! i) \<and>
           Scalar (value (cells (Software_sheet wb) (software_start example_devices k + i) 4)) = Software.vendor (software (example_devices ! k) ! i)) \<and>
        Scalar (value (cells (Vulnerability_sheet wb) (vuln_start example_devices k) 1)) = Device.name (example_devices ! k) \<and>
        (\<forall>i<length (vulnerabilities (example_devices ! k)).
           Scalar (value (cells (Vulnerability_sheet wb) (vuln_start example_devices k + i) 2)) = kaspersky_id (vulnerabilities (example_devices ! k) ! i) \<and>
           Scalar (value (cells (Vulnerability_sheet wb) (vuln_start example_devices k + i) 3)) = product_name (vulnerabilities (example_devices ! k) ! i) \<and>
           Scalar (value (cells (Vulnerability_sheet wb) (vuln_start example_devices k + i) 4)) = severity (vulnerabilities (example_devices ! k) ! i) \<and>
           Scalar (value (cells (Vulnerability_sheet wb) (vuln_start example_devices k + i) 5)) = severity_str (vulnerabilities (example_devices ! k) ! i) \<and>
           value (cells (Vulnerability_sheet wb) (vuln_start example_devices k + i) 6) = SStr (comma_joined (strs_of (cve (vulnerabilities (example_devices ! k) ! i)))) \<and>
           value (cells (Vulnerability_sheet wb) (vuln_start example_devices k + i) 7) = SStr (if exploit_exists (vulnerabilities (example_devices ! k) ! i) = Scalar (SBool True) then str ''Yes'' else str ''No'') \<and>
           value (cells (Vulnerability_sheet wb) (vuln_start example_devices k + i) 8) = SStr (if malware_exists (vulnerabilities (example_devices ! k) ! i) = Scalar (SBool True) then str ''Yes'' else str ''No'') \<and>
           Scalar (value (cells (Vulnerability_sheet wb) (vuln_start example_devices k + i) 9)) = recommended_major_patch (vulnerabilities (example_devices ! k) ! i) \<and>
           Scalar (value (cells (Vulnerability_sheet wb) (vuln_start example_devices k + i) 10)) = recommended_minor_patch (vulnerabilities (example_devices ! k) ! i) \<and>
           Scalar (value (cells (Vulnerability_sheet wb) (vuln_start example_devices k + i) 11)) = description_url (vulnerabilities (example_devices ! k) ! i))"
    by blast
  have starts: "software_start example_devices 1 = 3" "vuln_start example_devices 0 = 2"
    by (simp_all add: software_start_def vuln_start_def block_start_def block_height_def example_defs)
  have rows23: "(0::nat) + 2 = 2" "(1::nat) + 2 = 3"
    by simp_all
  have len: "0 < length example_devices" "1 < length example_devices"
    by (simp_all add: example_devices_def)
  have items: "software (example_devices ! 1) = [example_software (str ''vim''), example_software (str ''git'')]"
    "vulnerabilities (example_devices ! 0) = [example_vuln]"
    "Device.name (example_devices ! 0) = Scalar (SStr (str ''host1''))"
    "Device.name (example_devices ! 1) = Scalar (SStr (str ''host2''))"
    "fqdn (example_devices ! 1) = PList [Scalar (SStr (str ''a.example'')), Scalar (SStr (str ''b.example''))]"
    by (simp_all add: example_devices_def host1_def host2_def)
  note row1 = rows [OF len(1), unfolded rows23 starts items]
    and row2 = rows [OF len(2), unfolded rows23 starts items]
  have fqdn: "value (cells (Device_sheet wb) 3 2) = SStr (str ''a.example, b.example'')"
    using row2 by (simp add: strs_of_def comma_joined_def)
  have sw3: "map (\<lambda>c. value (cells (Software_sheet wb) 3 c)) [1, 2, 3, 4] =
        [SStr (str ''host2''), SStr (str ''vim''), SStr (str ''1.0''), SStr (str ''v'')]"
    and sw4: "map (\<lambda>c. value (cells (Software_sheet wb) 4 c)) [2, 3, 4] =
        [SStr (str ''git''), SStr (str ''1.0''), SStr (str ''v'')]"
    using row2 by (simp_all add: example_software_def All_less_Suc)
  have vs2: "map (\<lambda>c. value (cells (Vulnerability_sheet wb) 2 c)) [1, 2, 3, 4, 5, 6, 7, 8, 9, 10, 11] =
        [SStr (str ''host1''), SStr (str ''KLA1''), SStr (str ''p''), SInt 4, SStr (str ''High''),
         SStr (str ''CVE-2020-1''), SStr (str ''Yes''), SStr (str ''No''), SStr (str ''1''),
         SStr (str ''0''), SStr (str ''u'')]"
    using row1 by (simp add: example_vuln_def All_less_Suc strs_of_def comma_joined_def)
  show ?thesis
    by (rule conjI [OF valid exI [of _ wb]]) (simp only: built fqdn sw3 sw4 vs2 simp_thms)
qed

end
